theory Spec2Isabelle
  imports Main "HOL-Library.Word"
begin

section \<open>JavaScript strings\<close>

text \<open>
  A JavaScript string is a sequence of UTF-16 code units. \<open>lit\<close> embeds an ASCII literal of
  the source; code units beyond ASCII are written as numerals.
\<close>

type_synonym jschar = "16 word"
type_synonym jsstring = "jschar list"

definition lit :: "string \<Rightarrow> jsstring" where
  "lit s = map of_char s"

text \<open>
  The code units that \<open>String.prototype.trim\<close> strips and that \<open>\s\<close> matches in a
  regular expression: ECMAScript's WhiteSpace and LineTerminator productions.
\<close>

definition isWhiteSpace :: "jschar \<Rightarrow> bool" where
  "isWhiteSpace c \<longleftrightarrow>
     c = 0x0009 \<or> c = 0x000A \<or> c = 0x000B \<or> c = 0x000C \<or> c = 0x000D \<or> c = 0x0020 \<or>
     c = 0x00A0 \<or> c = 0x1680 \<or> (0x2000 \<le> c \<and> c \<le> 0x200A) \<or>
     c = 0x2028 \<or> c = 0x2029 \<or> c = 0x202F \<or> c = 0x205F \<or> c = 0x3000 \<or> c = 0xFEFF"

definition trim :: "jsstring \<Rightarrow> jsstring" where
  "trim s = rev (dropWhile isWhiteSpace (rev (dropWhile isWhiteSpace s)))"

text \<open>\<open>s.includes(t)\<close>: \<open>t\<close> occurs in \<open>s\<close> as a contiguous run.\<close>

primrec str_includes :: "jsstring \<Rightarrow> jsstring \<Rightarrow> bool" where
  "str_includes [] t = (t = [])"
| "str_includes (c # s) t = (take (length t) (c # s) = t \<or> str_includes s t)"

text \<open>\<open>parts.join(sep)\<close> on an array of strings.\<close>

fun join :: "jsstring \<Rightarrow> jsstring list \<Rightarrow> jsstring" where
  "join sep [] = []"
| "join sep [x] = x"
| "join sep (x # y # ys) = x @ sep @ join sep (y # ys)"

text \<open>\<open>s.replace(/c/g, r)\<close> for a pattern that is one literal code unit \<open>c\<close>.\<close>

primrec replace_g :: "jschar \<Rightarrow> jsstring \<Rightarrow> jsstring \<Rightarrow> jsstring" where
  "replace_g c r [] = []"
| "replace_g c r (x # s) = (if x = c then r @ replace_g c r s else x # replace_g c r s)"

text \<open>\<open>s.substr(n)\<close> for a non-negative start.\<close>

definition substr :: "nat \<Rightarrow> jsstring \<Rightarrow> jsstring" where
  "substr n s = drop n s"

text \<open>A non-negative integer in a template literal: its decimal digits.\<close>

fun decimal :: "nat \<Rightarrow> jsstring" where
  "decimal n =
     (if n < 10 then [of_nat (48 + n)] else decimal (n div 10) @ [of_nat (48 + n mod 10)])"

declare decimal.simps [simp del]

section \<open>Regular expressions\<close>

text \<open>
  The fragment of regular expressions that the handler's one pattern uses. \<open>test\<close> is
  \<open>RegExp.prototype.test\<close> for a pattern anchored by \<open>^\<close> and \<open>$\<close> (no flags): the
  whole string has to match. Matching is by derivatives.
\<close>

datatype regex =
    Zero
  | Eps
  | Class "jschar \<Rightarrow> bool"
  | Alt regex regex
  | Seq regex regex
  | Star regex

definition Plus :: "regex \<Rightarrow> regex" where
  "Plus r = Seq r (Star r)"

definition Chr :: "jschar \<Rightarrow> regex" where
  "Chr c = Class (\<lambda>x. x = c)"

primrec nullable :: "regex \<Rightarrow> bool" where
  "nullable Zero = False"
| "nullable Eps = True"
| "nullable (Class p) = False"
| "nullable (Alt r s) = (nullable r \<or> nullable s)"
| "nullable (Seq r s) = (nullable r \<and> nullable s)"
| "nullable (Star r) = True"

primrec deriv :: "jschar \<Rightarrow> regex \<Rightarrow> regex" where
  "deriv c Zero = Zero"
| "deriv c Eps = Zero"
| "deriv c (Class p) = (if p c then Eps else Zero)"
| "deriv c (Alt r s) = Alt (deriv c r) (deriv c s)"
| "deriv c (Seq r s) =
     (if nullable r then Alt (Seq (deriv c r) s) (deriv c s) else Seq (deriv c r) s)"
| "deriv c (Star r) = Seq (deriv c r) (Star r)"

primrec test :: "regex \<Rightarrow> jsstring \<Rightarrow> bool" where
  "test r [] = nullable r"
| "test r (c # s) = test (deriv c r) s"

text \<open>\<open>[^\s@]\<close>\<close>

definition notSpaceOrAt :: "jschar \<Rightarrow> bool" where
  "notSpaceOrAt c \<longleftrightarrow> \<not> isWhiteSpace c \<and> c \<noteq> 0x40"

text \<open>\<open>/^[^\s@]+@[^\s@]+\.[^\s@]+$/\<close>\<close>

definition emailRegex :: regex where
  "emailRegex =
     Seq (Plus (Class notSpaceOrAt))
       (Seq (Chr 0x40)
         (Seq (Plus (Class notSpaceOrAt))
           (Seq (Chr 0x2E) (Plus (Class notSpaceOrAt)))))"




section \<open>JavaScript values\<close>

text \<open>
  What a parsed request body can hold, and \<open>undefined\<close> for a property that is not there.
  A number is carried as the two things the handler can observe of it: whether it is
  truthy (neither zero nor NaN) and its conversion to a string.
\<close>

datatype jsval =
    JUndefined
  | JNull
  | JBool bool
  | JNum bool jsstring
  | JStr jsstring
  | JArr "jsval list"
  | JObj "(jsstring \<times> jsval) list"

fun truthy :: "jsval \<Rightarrow> bool" where
  "truthy JUndefined = False"
| "truthy JNull = False"
| "truthy (JBool b) = b"
| "truthy (JNum nonzero shown) = nonzero"
| "truthy (JStr s) = (s \<noteq> [])"
| "truthy (JArr vs) = True"
| "truthy (JObj ps) = True"

fun isArray :: "jsval \<Rightarrow> bool" where
  "isArray (JArr vs) = True"
| "isArray v = False"

fun isString :: "jsval \<Rightarrow> bool" where
  "isString (JStr s) = True"
| "isString v = False"

text \<open>The elements of an array; only read where \<open>isArray\<close> has been tested.\<close>

fun elements :: "jsval \<Rightarrow> jsval list" where
  "elements (JArr vs) = vs"
| "elements v = []"

section \<open>Exceptions\<close>

text \<open>
  A thrown or rejected error, as far as the handler's catch block reads it:
  \<open>error.message\<close> and \<open>error.code\<close>.
\<close>

datatype js_error = JsError (error_message: "jsstring option") (error_code: "jsstring option")

definition TypeError :: "jsstring \<Rightarrow> js_error" where
  "TypeError msg = JsError (Some msg) None"

text \<open>
  Calling a string method \<open>name\<close> on \<open>v\<close>, where \<open>v\<close> is not a string: the TypeError
  that V8 raises, with its message text (\<open>expr\<close> is the source text of the receiver).
\<close>

fun no_method :: "jsstring \<Rightarrow> jsstring \<Rightarrow> jsval \<Rightarrow> js_error" where
  "no_method expr name JUndefined =
     TypeError (lit ''Cannot read properties of undefined (reading '' @ [0x27] @ name @ [0x27] @ lit '')'')"
| "no_method expr name JNull =
     TypeError (lit ''Cannot read properties of null (reading '' @ [0x27] @ name @ [0x27] @ lit '')'')"
| "no_method expr name v =
     TypeError (expr @ lit ''.'' @ name @ lit '' is not a function'')"

definition bindE :: "js_error + 'a \<Rightarrow> ('a \<Rightarrow> js_error + 'b) \<Rightarrow> js_error + 'b" where
  "bindE m f = (case m of Inl e \<Rightarrow> Inl e | Inr x \<Rightarrow> f x)"

text \<open>
  Conversion to a string, as a template literal does it. \<open>Array.prototype.join\<close> renders
  \<open>undefined\<close> and \<open>null\<close> elements as the empty string. An object of a parsed body
  has no callable property: where it has a property \<open>toString\<close> of its own, neither that
  nor \<open>valueOf\<close> yields a primitive and the conversion throws.
\<close>

fun sequenceE :: "(js_error + 'a) list \<Rightarrow> js_error + 'a list" where
  "sequenceE [] = Inr []"
| "sequenceE (m # ms) = bindE m (\<lambda>x. bindE (sequenceE ms) (\<lambda>xs. Inr (x # xs)))"

fun toString :: "jsval \<Rightarrow> js_error + jsstring" where
  "toString JUndefined = Inr (lit ''undefined'')"
| "toString JNull = Inr (lit ''null'')"
| "toString (JBool b) = Inr (if b then lit ''true'' else lit ''false'')"
| "toString (JNum nonzero shown) = Inr shown"
| "toString (JStr s) = Inr s"
| "toString (JArr vs) =
     bindE (sequenceE (map (\<lambda>v. if v = JUndefined \<or> v = JNull then Inr [] else toString v) vs))
       (\<lambda>parts. Inr (join (lit '','') parts))"
| "toString (JObj ps) =
     (if lit ''toString'' \<in> fst ` set ps
      then Inl (TypeError (lit ''Cannot convert object to primitive value''))
      else Inr (lit ''[object Object]''))"

text \<open>\<open>v.trim()\<close>\<close>

fun call_trim :: "jsstring \<Rightarrow> jsval \<Rightarrow> js_error + jsstring" where
  "call_trim expr (JStr s) = Inr (trim s)"
| "call_trim expr v = Inl (no_method expr (lit ''trim'') v)"

text \<open>\<open>v.includes(t)\<close> for a string \<open>t\<close>; arrays have the method too.\<close>

fun call_includes :: "jsstring \<Rightarrow> jsval \<Rightarrow> jsstring \<Rightarrow> js_error + bool" where
  "call_includes expr (JStr s) t = Inr (str_includes s t)"
| "call_includes expr (JArr vs) t = Inr (JStr t \<in> set vs)"
| "call_includes expr v t = Inl (no_method expr (lit ''includes'') v)"

text \<open>\<open>.filter(m => m.trim())\<close> on the elements: the callback runs on every one, in order.\<close>

fun filter_trim :: "jsstring \<Rightarrow> jsval list \<Rightarrow> js_error + jsval list" where
  "filter_trim expr [] = Inr []"
| "filter_trim expr (m # ms) =
     bindE (call_trim expr m) (\<lambda>t.
     bindE (filter_trim expr ms) (\<lambda>kept.
     Inr (if t \<noteq> [] then m # kept else kept)))"

text \<open>\<open>v.filter(m => m.trim())\<close>; \<open>param\<close> is the callback's parameter name.\<close>

fun call_filter_trim :: "jsstring \<Rightarrow> jsstring \<Rightarrow> jsval \<Rightarrow> js_error + jsval list" where
  "call_filter_trim expr param (JArr vs) = filter_trim param vs"
| "call_filter_trim expr param v = Inl (no_method expr (lit ''filter'') v)"

section \<open>Validation\<close>

text \<open>The parsed request body: \<open>req.body[field]\<close>, \<open>undefined\<close> where the property is absent.\<close>

type_synonym body = "jsstring \<Rightarrow> jsval"

definition emptyBody :: body where
  "emptyBody = (\<lambda>field. JUndefined)"

definition requiredFields :: "(jsstring \<times> jsstring) list" where
  "requiredFields =
     [(lit ''teamName'', lit ''Team Name''),
      (lit ''teamEmail'', lit ''Team Email Address''),
      (lit ''projectTitle'', lit ''Project Title''),
      (lit ''projectBackground'', lit ''Project Background''),
      (lit ''problemStatement'', lit ''Problem Statement''),
      (lit ''youtubeLink'', lit ''YouTube Link''),
      (lit ''githubRepo'', lit ''GitHub Repository'')]"

definition emailFormatError :: jsstring where
  "emailFormatError = lit ''Team Email Address (must be a valid email format)''"

definition sdgError :: jsstring where
  "sdgError = lit ''UN Sustainable Development Goals (select at least one)''"

definition teamMembersError :: jsstring where
  "teamMembersError = lit ''Team Members (at least one member required)''"

definition youtubeError :: jsstring where
  "youtubeError = lit ''YouTube Link (must be a valid YouTube URL)''"

definition githubError :: jsstring where
  "githubError = lit ''GitHub Repository (must be a valid GitHub URL)''"

text \<open>
  The loop over \<open>Object.entries(requiredFields)\<close>:
  \<open>if (!req.body[field] || req.body[field].trim() === '') errors.push(displayName)\<close>.
\<close>

fun required_loop :: "body \<Rightarrow> (jsstring \<times> jsstring) list \<Rightarrow> jsstring list \<Rightarrow> js_error + jsstring list" where
  "required_loop b [] errors = Inr errors"
| "required_loop b ((field, displayName) # rest) errors =
     (if \<not> truthy (b field) then required_loop b rest (errors @ [displayName])
      else bindE (call_trim (lit ''req.body[field]'') (b field)) (\<lambda>t.
        if t = [] then required_loop b rest (errors @ [displayName])
        else required_loop b rest errors))"

definition email_step :: "jsval \<Rightarrow> jsstring list \<Rightarrow> js_error + jsstring list" where
  "email_step teamEmail errors =
     (if truthy teamEmail then
        bindE (call_trim (lit ''teamEmail'') teamEmail) (\<lambda>t.
          if \<not> test emailRegex t then Inr (errors @ [emailFormatError]) else Inr errors)
      else Inr errors)"

definition sdg_step :: "jsval \<Rightarrow> jsstring list \<Rightarrow> js_error + jsstring list" where
  "sdg_step unsdgGoals errors =
     (if \<not> truthy unsdgGoals \<or> \<not> isArray unsdgGoals \<or> length (elements unsdgGoals) = 0
      then Inr (errors @ [sdgError]) else Inr errors)"

definition members_step :: "jsval \<Rightarrow> jsstring list \<Rightarrow> js_error + jsstring list" where
  "members_step teamMembers errors =
     (if \<not> truthy teamMembers \<or> \<not> isArray teamMembers then Inr (errors @ [teamMembersError])
      else bindE (call_filter_trim (lit ''teamMembers'') (lit ''m'') teamMembers) (\<lambda>kept.
        if length kept = 0 then Inr (errors @ [teamMembersError]) else Inr errors))"

definition youtube_step :: "jsval \<Rightarrow> jsstring list \<Rightarrow> js_error + jsstring list" where
  "youtube_step youtubeLink errors =
     (if truthy youtubeLink then
        bindE (call_includes (lit ''youtubeLink'') youtubeLink (lit ''youtube.com'')) (\<lambda>a.
          if \<not> a then
            bindE (call_includes (lit ''youtubeLink'') youtubeLink (lit ''youtu.be'')) (\<lambda>b.
              if \<not> b then Inr (errors @ [youtubeError]) else Inr errors)
          else Inr errors)
      else Inr errors)"

definition github_step :: "jsval \<Rightarrow> jsstring list \<Rightarrow> js_error + jsstring list" where
  "github_step githubRepo errors =
     (if truthy githubRepo then
        bindE (call_includes (lit ''githubRepo'') githubRepo (lit ''github.com'')) (\<lambda>a.
          if \<not> a then Inr (errors @ [githubError]) else Inr errors)
      else Inr errors)"

text \<open>
  Lines 96 to 125 of the handler: the error list after all rules, or the exception that
  one of them threw.
\<close>

definition validate :: "body \<Rightarrow> js_error + jsstring list" where
  "validate b =
     bindE (required_loop b requiredFields []) (\<lambda>errors.
     bindE (email_step (b (lit ''teamEmail'')) errors) (\<lambda>errors.
     bindE (sdg_step (b (lit ''unsdgGoals'')) errors) (\<lambda>errors.
     bindE (members_step (b (lit ''teamMembers'')) errors) (\<lambda>errors.
     bindE (youtube_step (b (lit ''youtubeLink'')) errors) (\<lambda>errors.
     github_step (b (lit ''githubRepo'')) errors)))))"

section \<open>Formatting\<close>

text \<open>\<open>.map((member, index) => `${index + 1}. ${member.trim()}`)\<close>, from a given index on.\<close>

fun map_members :: "nat \<Rightarrow> jsval list \<Rightarrow> js_error + jsstring list" where
  "map_members index [] = Inr []"
| "map_members index (member # rest) =
     bindE (call_trim (lit ''member'') member) (\<lambda>t.
     bindE (map_members (Suc index) rest) (\<lambda>lines.
     Inr ((decimal (index + 1) @ lit ''. '' @ t) # lines)))"

definition formatMembers :: "jsval \<Rightarrow> js_error + jsstring" where
  "formatMembers teamMembers =
     bindE (call_filter_trim (lit ''teamMembers'') (lit ''member'') teamMembers) (\<lambda>kept.
     bindE (map_members 0 kept) (\<lambda>lines.
     Inr (join (lit ''\<newline>'') lines)))"

text \<open>\<open>.map((sdg, index) => `${index + 1}. ${sdg}`)\<close>, from a given index on.\<close>

fun map_sdgs :: "nat \<Rightarrow> jsval list \<Rightarrow> js_error + jsstring list" where
  "map_sdgs index [] = Inr []"
| "map_sdgs index (sdg # rest) =
     bindE (toString sdg) (\<lambda>t.
     bindE (map_sdgs (Suc index) rest) (\<lambda>lines.
     Inr ((decimal (index + 1) @ lit ''. '' @ t) # lines)))"

definition formatSDGs :: "jsval \<Rightarrow> js_error + jsstring" where
  "formatSDGs unsdgGoals =
     (case unsdgGoals of
        JArr gs \<Rightarrow> bindE (map_sdgs 0 gs) (\<lambda>lines. Inr (join (lit ''\<newline>'') lines))
      | v \<Rightarrow> Inl (no_method (lit ''unsdgGoals'') (lit ''map'') v))"

text \<open>The rule of 39 box-drawing characters (U+2550) that the templates use.\<close>

definition ruleLine :: jsstring where
  "ruleLine = replicate 39 0x2550"

text \<open>
  The two template literals, before \<open>.trim()\<close>; the interpolated values are already
  converted to strings.
\<close>

definition adminTemplate ::
  "jsstring \<Rightarrow> jsstring \<Rightarrow> jsstring \<Rightarrow> jsstring \<Rightarrow> jsstring \<Rightarrow> jsstring \<Rightarrow> jsstring \<Rightarrow>
   jsstring \<Rightarrow> jsstring \<Rightarrow> jsstring \<Rightarrow> jsstring \<Rightarrow> jsstring" where
  "adminTemplate submissionId submissionDate teamName teamEmail projectTitle projectBackground
       problemStatement formattedSDGs formattedMembers youtubeLink githubRepo =
        lit ''\<newline>FUTURE TECH HACKATHON - MVP SUBMISSION\<newline>'' @
        lit ''Organized by FOCLIS - Faculty of Computing and Library Information Science\<newline>'' @
        lit ''Kabale University\<newline>\<newline>'' @
        ruleLine @
        lit ''\<newline>\<newline>'' @ [0xD83D, 0xDCCB] @
        lit '' SUBMISSION DETAILS:\<newline>Submission ID: '' @ submissionId @
        lit ''\<newline>Submitted: '' @ submissionDate @ lit '' (EAT)\<newline>\<newline>'' @
        [0xD83D, 0xDC65] @ lit '' TEAM INFORMATION:\<newline>Team Name: '' @ teamName @
        lit ''\<newline>Team Email: '' @ teamEmail @ lit ''\<newline>Project Title: '' @
        projectTitle @ lit ''\<newline>\<newline>'' @ [0xD83D, 0xDCD6] @
        lit '' PROJECT BACKGROUND:\<newline>'' @ projectBackground @
        lit ''\<newline>\<newline>'' @ [0x2757] @ lit '' PROBLEM STATEMENT:\<newline>'' @
        problemStatement @ lit ''\<newline>\<newline>'' @ [0xD83C, 0xDFAF] @
        lit '' UN SUSTAINABLE DEVELOPMENT GOALS:\<newline>'' @ formattedSDGs @
        lit ''\<newline>\<newline>'' @ [0xD83D, 0xDC68, 0x200D, 0xD83D, 0xDCBB] @
        lit '' TEAM MEMBERS:\<newline>'' @ formattedMembers @ lit ''\<newline>\<newline>'' @
        [0xD83D, 0xDD17] @ lit '' PROJECT LINKS:\<newline>'' @ [0xD83C, 0xDFA5] @
        lit '' YouTube Demo: '' @ youtubeLink @ lit ''\<newline>'' @ [0xD83D, 0xDCBB] @
        lit '' GitHub Repository: '' @ githubRepo @ lit ''\<newline>\<newline>'' @
        ruleLine @
        lit ''\<newline>\<newline>'' @ [0xD83D, 0xDCE7] @ lit '' Reply to team at: '' @
        teamEmail @ lit ''\<newline>'' @ [0xD83D, 0xDCDE] @
        lit '' This submission was automatically processed by the MVP Submission System.\<newline>'' @
        lit ''\<newline>FOCLIS - Faculty of Computing and Library Information Science\<newline>'' @
        lit ''Kabale University\<newline>Contact: cosaku10@gmail.com\<newline>    ''"

definition participantTemplate ::
  "jsstring \<Rightarrow> jsstring \<Rightarrow> jsstring \<Rightarrow> jsstring \<Rightarrow> nat \<Rightarrow> nat \<Rightarrow> jsstring" where
  "participantTemplate submissionId submissionDate teamName projectTitle sdgCount memberCount =
        lit ''\<newline>Dear '' @ teamName @ lit '' Team,\<newline>\<newline>'' @ [0x2705] @
        lit '' Your MVP submission has been successfully received!\<newline>\<newline>'' @
        ruleLine @
        lit ''\<newline>\<newline>'' @ [0xD83D, 0xDCCB] @
        lit '' SUBMISSION CONFIRMATION:\<newline>Project: '' @ projectTitle @
        lit ''\<newline>Submission ID: '' @ submissionId @ lit ''\<newline>Submitted: '' @
        submissionDate @ lit '' (EAT)\<newline>\<newline>Your submission includes:\<newline>'' @
        [0x2713] @ lit '' Project background and problem statement\<newline>'' @ [0x2713] @
        lit '' '' @ decimal sdgCount @ lit '' UN SDG goal(s) selected\<newline>'' @ [0x2713] @
        lit '' '' @ decimal memberCount @ lit '' team member(s)\<newline>'' @ [0x2713] @
        lit '' YouTube demonstration video\<newline>'' @ [0x2713] @
        lit '' GitHub repository link\<newline>\<newline>'' @
        ruleLine @
        lit ''\<newline>'' @ [0xD83D, 0xDCE7] @
        lit '' NEED HELP?\<newline>For any questions or concerns, please contact us at:\<newline>'' @
        lit ''cosaku10@gmail.com\<newline>\<newline>'' @
        lit ''Thank you for participating in the Future Tech Hackathon!\<newline>\<newline>'' @
        lit ''Best regards,\<newline>FOCLIS - Faculty of Computing and Library Information Science\<newline>Kabale University\<newline>\<newline>'' @
        ruleLine @
        lit ''\<newline>This is an automated confirmation. Please do not reply to this email.\<newline>    ''"

section \<open>The handler of POST /submit-mvp\<close>

text \<open>The argument of \<open>transporter.sendMail\<close>.\<close>

record mail =
  mail_from :: jsstring
  mail_to :: jsval
  mail_replyTo :: "jsval option"
  mail_cc :: "jsstring option"
  mail_subject :: jsstring
  mail_text :: jsstring
  mail_html :: jsstring

text \<open>
  What the handler does to the world besides answering, in order: reading the clock
  (\<open>Date.now()\<close>, \<open>new Date()\<close>), drawing a random number, handing a message to the
  transport. Console output is left out.
\<close>

datatype effect = DateNow | MathRandom | NewDate | SendMail mail

text \<open>
  What the handler reads from outside the request body. \<open>transporter\<close> is \<open>None\<close> when
  the module-level variable was left undefined; otherwise it gives, for each message,
  the error that \<open>sendMail\<close>'s promise rejects with, or \<open>None\<close> when it resolves.
  \<open>dateNow36\<close> is \<open>Date.now().toString(36)\<close>, \<open>random36\<close> is
  \<open>Math.random().toString(36)\<close>, \<open>localeString\<close> the result of \<open>toLocaleString\<close>.
  \<open>adminSettlesFirst\<close> tells which of the two promises settles first.
\<close>

record world =
  transporter :: "(mail \<Rightarrow> js_error option) option"
  NODE_ENV :: "jsstring option"
  dateNow36 :: jsstring
  random36 :: jsstring
  localeString :: jsstring
  adminSettlesFirst :: bool

text \<open>The response: \<open>res.status(...)\<close> (200 when not set) and the properties of the JSON body.\<close>

record response =
  res_status :: nat
  res_success :: bool
  res_message :: jsstring
  res_errors :: "jsstring list option"
  res_error :: "jsstring option"
  res_submissionId :: "jsstring option"
  res_submissionDate :: "jsstring option"
  res_teamName :: "jsval option"
  res_projectTitle :: "jsval option"

definition failure :: "nat \<Rightarrow> jsstring \<Rightarrow> response" where
  "failure code msg =
     \<lparr>res_status = code, res_success = False, res_message = msg, res_errors = None,
      res_error = None, res_submissionId = None, res_submissionDate = None,
      res_teamName = None, res_projectTitle = None\<rparr>"

definition notConfigured :: response where
  "notConfigured = failure 500 (lit ''Email service not configured. Please contact administrator.'')"

definition validationFailed :: "jsstring list \<Rightarrow> response" where
  "validationFailed errors = (failure 400 (lit ''Validation failed'')) \<lparr>res_errors := Some errors\<rparr>"

definition genericMessage :: jsstring where
  "genericMessage = lit ''An error occurred while processing your submission.''"

definition configurationMessage :: jsstring where
  "configurationMessage = lit ''Email service configuration error. Please contact administrator.''"

definition networkMessage :: jsstring where
  "networkMessage = lit ''Network connectivity issue. Please try again.''"

text \<open>\<open>error.message && error.message.includes('Unauthorized')\<close>\<close>

definition mentionsUnauthorized :: "js_error \<Rightarrow> bool" where
  "mentionsUnauthorized e =
     (case error_message e of None \<Rightarrow> False
      | Some m \<Rightarrow> m \<noteq> [] \<and> str_includes m (lit ''Unauthorized''))"

text \<open>The catch block, lines 272 to 289.\<close>

definition catch_block :: "world \<Rightarrow> js_error \<Rightarrow> response" where
  "catch_block w e =
     (let errorMessage =
        (if mentionsUnauthorized e then configurationMessage
         else if error_code e = Some (lit ''ENOTFOUND'') then networkMessage
         else genericMessage)
      in (failure 500 errorMessage)
           \<lparr>res_error := (if NODE_ENV w = Some (lit ''development'') then error_message e else None)\<rparr>)"

text \<open>
  \<open>await Promise.all([p1, p2])\<close> on the outcomes of the two promises: the rejection that
  comes first, if any.
\<close>

definition promise_all :: "bool \<Rightarrow> js_error option \<Rightarrow> js_error option \<Rightarrow> js_error option" where
  "promise_all firstSettlesFirst r1 r2 =
     (case r1 of
        None \<Rightarrow> r2
      | Some e1 \<Rightarrow> (case r2 of None \<Rightarrow> Some e1
                   | Some e2 \<Rightarrow> Some (if firstSettlesFirst then e1 else e2)))"

text \<open>
  Lines 136 to 229: the submission id, the date, and the two message bodies with the
  strings they interpolate.
\<close>

record submission =
  sub_id :: jsstring
  sub_date :: jsstring
  sub_teamName :: jsstring
  sub_projectTitle :: jsstring
  sub_adminEmailBody :: jsstring
  sub_participantEmailBody :: jsstring

definition format_submission :: "world \<Rightarrow> body \<Rightarrow> js_error + submission" where
  "format_submission w b =
     (let submissionId = dateNow36 w @ substr 2 (random36 w);
          submissionDate = localeString w
      in
      bindE (formatMembers (b (lit ''teamMembers''))) (\<lambda>members.
      bindE (formatSDGs (b (lit ''unsdgGoals''))) (\<lambda>sdgs.
      bindE (toString (b (lit ''teamName''))) (\<lambda>teamName.
      bindE (toString (b (lit ''teamEmail''))) (\<lambda>teamEmail.
      bindE (toString (b (lit ''projectTitle''))) (\<lambda>projectTitle.
      bindE (toString (b (lit ''projectBackground''))) (\<lambda>projectBackground.
      bindE (toString (b (lit ''problemStatement''))) (\<lambda>problemStatement.
      bindE (toString (b (lit ''youtubeLink''))) (\<lambda>youtubeLink.
      bindE (toString (b (lit ''githubRepo''))) (\<lambda>githubRepo.
      bindE (call_filter_trim (lit ''teamMembers'') (lit ''m'') (b (lit ''teamMembers''))) (\<lambda>kept.
      Inr \<lparr>sub_id = submissionId, sub_date = submissionDate,
           sub_teamName = teamName, sub_projectTitle = projectTitle,
           sub_adminEmailBody =
             trim (adminTemplate submissionId submissionDate teamName teamEmail projectTitle
                     projectBackground problemStatement sdgs members youtubeLink githubRepo),
           sub_participantEmailBody =
             trim (participantTemplate submissionId submissionDate teamName projectTitle
                     (length (elements (b (lit ''unsdgGoals'')))) (length kept))\<rparr>)))))))))))"

definition adminMail :: "body \<Rightarrow> submission \<Rightarrow> mail" where
  "adminMail b s =
     \<lparr>mail_from = lit ''noreply@kbacomuniversity.ac.ug'',
      mail_to = JStr (lit ''cosaku10@gmail.com''),
      mail_replyTo = Some (b (lit ''teamEmail'')),
      mail_cc = None,
      mail_subject =
        [0xD83D, 0xDE80] @ lit '' MVP Submission - '' @ sub_teamName s @ lit '' - '' @ sub_projectTitle s,
      mail_text = sub_adminEmailBody s,
      mail_html = replace_g 0x0A (lit ''<br>'') (sub_adminEmailBody s)\<rparr>"

definition participantMail :: "body \<Rightarrow> submission \<Rightarrow> mail" where
  "participantMail b s =
     \<lparr>mail_from = lit ''noreply@kbacomuniversity.ac.ug'',
      mail_to = b (lit ''teamEmail''),
      mail_replyTo = None,
      mail_cc = Some (lit ''cosaku10@gmail.com''),
      mail_subject = [0x2705] @ lit '' MVP Submission Confirmed - '' @ sub_projectTitle s,
      mail_text = sub_participantEmailBody s,
      mail_html = replace_g 0x0A (lit ''<br>'') (sub_participantEmailBody s)\<rparr>"

definition submitted :: "body \<Rightarrow> submission \<Rightarrow> response" where
  "submitted b s =
     \<lparr>res_status = 200, res_success = True,
      res_message = lit ''MVP submission received successfully!'',
      res_errors = None, res_error = None,
      res_submissionId = Some (sub_id s), res_submissionDate = Some (sub_date s),
      res_teamName = Some (b (lit ''teamName'')),
      res_projectTitle = Some (b (lit ''projectTitle''))\<rparr>"

text \<open>
  The try block, lines 71 to 270: the effects it had, and the response it sent or the
  exception it threw. The log line 84 interpolates \<open>teamName\<close> before validation.
\<close>

definition try_block ::
  "(mail \<Rightarrow> js_error option) \<Rightarrow> world \<Rightarrow> body \<Rightarrow> effect list \<times> (js_error + response)" where
  "try_block sendMail w b =
     (case toString (b (lit ''teamName'')) of
        Inl e \<Rightarrow> ([], Inl e)
      | Inr logged \<Rightarrow>
     (case validate b of
        Inl e \<Rightarrow> ([], Inl e)
      | Inr errors \<Rightarrow>
          if length errors > 0 then ([], Inr (validationFailed errors))
          else
            (case format_submission w b of
               Inl e \<Rightarrow> ([DateNow, MathRandom, NewDate], Inl e)
             | Inr s \<Rightarrow>
                 (let m1 = adminMail b s; m2 = participantMail b s;
                      effects = [DateNow, MathRandom, NewDate, SendMail m1, SendMail m2]
                  in case promise_all (adminSettlesFirst w) (sendMail m1) (sendMail m2) of
                       Some e \<Rightarrow> (effects, Inl e)
                     | None \<Rightarrow> (effects, Inr (submitted b s))))))"

text \<open>The handler: the transporter guard, the try block and its catch block.\<close>

record outcome =
  effects :: "effect list"
  response :: response

definition handler :: "world \<Rightarrow> body \<Rightarrow> outcome" where
  "handler w b =
     (case transporter w of
        None \<Rightarrow> \<lparr>effects = [], response = notConfigured\<rparr>
      | Some sendMail \<Rightarrow>
          (case try_block sendMail w b of
             (effs, Inr r) \<Rightarrow> \<lparr>effects = effs, response = r\<rparr>
           | (effs, Inl e) \<Rightarrow> \<lparr>effects = effs, response = catch_block w e\<rparr>))"

text \<open>The messages that a run handed to the transport.\<close>

fun sent :: "effect list \<Rightarrow> mail list" where
  "sent [] = []"
| "sent (SendMail m # es) = m # sent es"
| "sent (e # es) = sent es"

section \<open>The rules as the specification words them\<close>

text \<open>
  The twelve rules in their fixed order, the entry each one adds to the error list, and
  when each one fails, worded on the payload alone.
\<close>

datatype rule =
    Required jsstring jsstring
  | EmailFormat
  | SdgSelected
  | TeamMembers
  | YoutubeUrl
  | GithubUrl

definition rules :: "rule list" where
  "rules =
     map (\<lambda>(field, displayName). Required field displayName) requiredFields @
     [EmailFormat, SdgSelected, TeamMembers, YoutubeUrl, GithubUrl]"

fun describe :: "rule \<Rightarrow> jsstring" where
  "describe (Required field displayName) = displayName"
| "describe EmailFormat = emailFormatError"
| "describe SdgSelected = sdgError"
| "describe TeamMembers = teamMembersError"
| "describe YoutubeUrl = youtubeError"
| "describe GithubUrl = githubError"

text \<open>A string that is blank after trimming.\<close>

fun blankString :: "jsval \<Rightarrow> bool" where
  "blankString (JStr s) = (trim s = [])"
| "blankString v = False"

text \<open>Absent (falsy), or blank after trimming.\<close>

definition absentOrBlank :: "jsval \<Rightarrow> bool" where
  "absentOrBlank v \<longleftrightarrow> \<not> truthy v \<or> blankString v"

text \<open>A string that is not empty.\<close>

fun nonEmptyString :: "jsval \<Rightarrow> bool" where
  "nonEmptyString (JStr s) = (s \<noteq> [])"
| "nonEmptyString v = False"

text \<open>The characters of a string value.\<close>

fun chars :: "jsval \<Rightarrow> jsstring" where
  "chars (JStr s) = s"
| "chars v = []"

fun fails :: "body \<Rightarrow> rule \<Rightarrow> bool" where
  "fails b (Required field displayName) = absentOrBlank (b field)"
| "fails b EmailFormat =
     (nonEmptyString (b (lit ''teamEmail'')) \<and>
      \<not> test emailRegex (trim (chars (b (lit ''teamEmail'')))))"
| "fails b SdgSelected =
     (\<not> isArray (b (lit ''unsdgGoals'')) \<or> elements (b (lit ''unsdgGoals'')) = [])"
| "fails b TeamMembers =
     (\<not> isArray (b (lit ''teamMembers'')) \<or>
      list_all blankString (elements (b (lit ''teamMembers''))))"
| "fails b YoutubeUrl =
     (nonEmptyString (b (lit ''youtubeLink'')) \<and>
      \<not> str_includes (chars (b (lit ''youtubeLink''))) (lit ''youtube.com'') \<and>
      \<not> str_includes (chars (b (lit ''youtubeLink''))) (lit ''youtu.be''))"
| "fails b GithubUrl =
     (nonEmptyString (b (lit ''githubRepo'')) \<and>
      \<not> str_includes (chars (b (lit ''githubRepo''))) (lit ''github.com''))"

text \<open>
  The payloads on which no rule calls a string method on something else than a string:
  every required field is falsy or a string, and an array of team members holds strings.
\<close>

definition wellTyped :: "body \<Rightarrow> bool" where
  "wellTyped b \<longleftrightarrow>
     list_all (\<lambda>(field, displayName). \<not> truthy (b field) \<or> isString (b field)) requiredFields \<and>
     list_all isString (elements (b (lit ''teamMembers'')))"

text \<open>A numbered list: line \<open>i\<close> (from 0) is \<open>i + 1\<close>, a dot, a space and the entry.\<close>

definition numbered :: "jsstring list \<Rightarrow> jsstring list" where
  "numbered xs = map (\<lambda>i. decimal (i + 1) @ lit ''. '' @ xs ! i) [0..<length xs]"

text \<open>The number that a string of decimal digits denotes.\<close>

definition decimalValue :: "jsstring \<Rightarrow> nat" where
  "decimalValue ds = foldl (\<lambda>a d. 10 * a + (unat d - 48)) 0 ds"

text \<open>Every line break replaced by the marker, nothing else touched.\<close>

definition lineBreaksToMarker :: "jsstring \<Rightarrow> jsstring" where
  "lineBreaksToMarker s = concat (map (\<lambda>c. if c = 0x0A then lit ''<br>'' else [c]) s)"

text \<open>A failure that neither mentions authorization nor is a name-resolution failure.\<close>

definition plainFailure :: "js_error \<Rightarrow> bool" where
  "plainFailure e \<longleftrightarrow> \<not> mentionsUnauthorized e \<and> error_code e \<noteq> Some (lit ''ENOTFOUND'')"

text \<open>
  What a template literal renders a value as, clause by clause; where no clause applies
  (an object with a \<open>toString\<close> property of its own, or an array holding one), the
  value does not render. An array renders as its elements joined by commas, with
  \<open>undefined\<close> and \<open>null\<close> elements as nothing.
\<close>

inductive renders :: "jsval \<Rightarrow> jsstring \<Rightarrow> bool" where
  renders_undefined: "renders JUndefined (lit ''undefined'')"
| renders_null: "renders JNull (lit ''null'')"
| renders_true: "renders (JBool True) (lit ''true'')"
| renders_false: "renders (JBool False) (lit ''false'')"
| renders_number: "renders (JNum nonzero shown) shown"
| renders_string: "renders (JStr s) s"
| renders_array:
    "list_all2
       (\<lambda>v part. (v = JUndefined \<or> v = JNull) \<and> part = [] \<or>
                 v \<noteq> JUndefined \<and> v \<noteq> JNull \<and> renders v part) vs parts \<Longrightarrow>
     renders (JArr vs) (join (lit '','') parts)"
| renders_object:
    "lit ''toString'' \<notin> fst ` set ps \<Longrightarrow> renders (JObj ps) (lit ''[object Object]'')"


section \<open>Sample worlds and payloads\<close>

definition acceptAll :: "mail \<Rightarrow> js_error option" where
  "acceptAll m = None"


definition sampleWorld :: world where
  "sampleWorld =
     \<lparr>transporter = Some acceptAll, NODE_ENV = Some (lit ''development''),
      dateNow36 = lit ''mh1x2k3a'', random36 = lit ''0.4fzyo82mvyr'',
      localeString = lit ''November 2, 2026 at 10:15 AM'', adminSettlesFirst = True\<rparr>"

definition unconfiguredWorld :: world where
  "unconfiguredWorld = sampleWorld \<lparr>transporter := None\<rparr>"


definition sampleBody :: body where
  "sampleBody = emptyBody
     (lit ''teamName'' := JStr (lit ''Crane''),
      lit ''teamEmail'' := JStr (lit ''team@example.org''),
      lit ''projectTitle'' := JStr (lit ''Soil''),
      lit ''projectBackground'' := JStr (lit ''Farms''),
      lit ''problemStatement'' := JStr (lit ''Drought''),
      lit ''unsdgGoals'' := JArr [JStr (lit ''Zero Hunger''), JStr (lit '' Climate Action'')],
      lit ''teamMembers'' := JArr [JStr (lit ''Alice''), JStr [], JStr (lit '' Bob '')],
      lit ''youtubeLink'' := JStr (lit ''https://youtu.be/x''),
      lit ''githubRepo'' := JStr (lit ''https://github.com/x/y''))"






definition mixedGoalsBody :: body where
  "mixedGoalsBody = sampleBody
     (lit ''unsdgGoals'' := JArr [JStr (lit ''Zero Hunger''), JNum True (lit ''7''), JNull])"

section \<open>Auxiliary facts\<close>

lemma bindE_Inl [simp]: "bindE (Inl e) f = Inl e"
  by (simp add: bindE_def)

lemma bindE_Inr [simp]: "bindE (Inr x) f = f x"
  by (simp add: bindE_def)


lemma of_char_word_inj: "(of_char c :: jschar) = of_char d \<longleftrightarrow> c = d"
proof
  assume "(of_char c :: jschar) = of_char d"
  then have "unat (of_nat (of_char c) :: jschar) = unat (of_nat (of_char d) :: jschar)"
    by (simp add: of_nat_of_char)
  moreover have "of_char c < (65536::nat)" "of_char d < (65536::nat)"
    using nat_of_char_less_256 [of c] nat_of_char_less_256 [of d] by linarith+
  ultimately have "(of_char c :: nat) = of_char d"
    by (simp add: unat_of_nat take_bit_nat_eq_self)
  then show "c = d" by simp
qed simp

lemma lit_eq_iff [simp]: "lit a = lit b \<longleftrightarrow> a = b"
  unfolding lit_def by (rule inj_map_eq_map) (simp add: inj_on_def of_char_word_inj)

lemma str_includes_iff: "str_includes s t \<longleftrightarrow> (\<exists>p q. s = p @ t @ q)"
proof (induction s)
  case Nil
  then show ?case by auto
next
  case (Cons c s)
  show ?case
  proof
    assume "str_includes (c # s) t"
    then consider "take (length t) (c # s) = t" | "str_includes s t" by auto
    then show "\<exists>p q. c # s = p @ t @ q"
    proof cases
      case 1
      then have "c # s = [] @ t @ drop (length t) (c # s)"
        by (metis append_Nil append_take_drop_id)
      then show ?thesis by blast
    next
      case 2
      with Cons.IH obtain p q where "s = p @ t @ q" by blast
      then have "c # s = (c # p) @ t @ q" by simp
      then show ?thesis by blast
    qed
  next
    assume "\<exists>p q. c # s = p @ t @ q"
    then obtain p q where pq: "c # s = p @ t @ q" by blast
    show "str_includes (c # s) t"
    proof (cases p)
      case Nil
      with pq have "take (length t) (c # s) = t" by simp
      then show ?thesis by simp
    next
      case (Cons a p')
      with pq have "s = p' @ t @ q" by simp
      with Cons.IH show ?thesis by auto
    qed
  qed
qed

lemma str_includes_set: "str_includes s t \<Longrightarrow> set t \<subseteq> set s"
  by (auto simp: str_includes_iff)

subsection \<open>Method calls\<close>

lemma call_trim_isString: "isString v \<Longrightarrow> call_trim expr v = Inr (trim (chars v))"
  by (cases v) simp_all

lemma call_trim_not_isString:
  "\<not> isString v \<Longrightarrow> call_trim expr v = Inl (no_method expr (lit ''trim'') v)"
  by (cases v) simp_all

lemma filter_trim_strings:
  "list_all isString ms \<Longrightarrow>
   filter_trim expr ms = Inr (filter (\<lambda>m. \<not> blankString m) ms)"
proof (induction ms)
  case Nil
  then show ?case by simp
next
  case (Cons m ms)
  then obtain s where "m = JStr s" by (cases m) simp_all
  with Cons show ?case by simp
qed

lemma filter_trim_raises:
  "\<not> list_all isString ms \<Longrightarrow>
   \<exists>v. \<not> isString v \<and> filter_trim expr ms = Inl (no_method expr (lit ''trim'') v)"
proof (induction ms)
  case Nil
  then show ?case by simp
next
  case (Cons m ms)
  show ?case
  proof (cases "isString m")
    case False
    then show ?thesis by (auto simp: call_trim_not_isString)
  next
    case True
    with Cons.prems have "\<not> list_all isString ms" by simp
    with Cons.IH obtain v where "\<not> isString v"
      "filter_trim expr ms = Inl (no_method expr (lit ''trim'') v)" by blast
    with True show ?thesis by (auto simp: call_trim_isString)
  qed
qed

subsection \<open>The steps of validation\<close>

lemma required_loop_ok:
  "list_all (\<lambda>(field, displayName). \<not> truthy (b field) \<or> isString (b field)) fs \<Longrightarrow>
   required_loop b fs errs =
     Inr (errs @ map snd (filter (\<lambda>(field, displayName). absentOrBlank (b field)) fs))"
proof (induction fs arbitrary: errs)
  case Nil
  then show ?case by simp
next
  case (Cons fd fs)
  obtain field displayName where fd: "fd = (field, displayName)" by (cases fd)
  from Cons.prems fd have ok: "\<not> truthy (b field) \<or> isString (b field)"
    and rest: "list_all (\<lambda>(field, displayName). \<not> truthy (b field) \<or> isString (b field)) fs"
    by simp_all
  show ?case
  proof (cases "truthy (b field)")
    case False
    with fd Cons.IH [OF rest] show ?thesis by (simp add: absentOrBlank_def)
  next
    case True
    with ok obtain s where s: "b field = JStr s" by (cases "b field") simp_all
    with True fd Cons.IH [OF rest] show ?thesis by (simp add: absentOrBlank_def)
  qed
qed

lemma required_loop_raises:
  "\<not> list_all (\<lambda>(field, displayName). \<not> truthy (b field) \<or> isString (b field)) fs \<Longrightarrow>
   \<exists>v. \<not> isString v \<and>
     required_loop b fs errs = Inl (no_method (lit ''req.body[field]'') (lit ''trim'') v)"
proof (induction fs arbitrary: errs)
  case Nil
  then show ?case by simp
next
  case (Cons fd fs)
  obtain field displayName where fd: "fd = (field, displayName)" by (cases fd)
  show ?case
  proof (cases "\<not> truthy (b field) \<or> isString (b field)")
    case False
    with fd show ?thesis by (auto simp: call_trim_not_isString)
  next
    case True
    with Cons.prems fd
    have "\<not> list_all (\<lambda>(field, displayName). \<not> truthy (b field) \<or> isString (b field)) fs"
      by auto
    from Cons.IH [OF this] True fd show ?thesis
      by (cases "b field") (auto simp: call_trim_isString)
  qed
qed

lemma email_step_ok:
  "\<not> truthy v \<or> isString v \<Longrightarrow>
   email_step v errs =
     Inr (if nonEmptyString v \<and> \<not> test emailRegex (trim (chars v))
          then errs @ [emailFormatError] else errs)"
  by (cases v) (simp_all add: email_step_def)

lemma sdg_step_eq:
  "sdg_step v errs =
     Inr (if \<not> isArray v \<or> elements v = [] then errs @ [sdgError] else errs)"
  by (cases v) (simp_all add: sdg_step_def)

lemma members_step_ok:
  "list_all isString (elements v) \<Longrightarrow>
   members_step v errs =
     Inr (if \<not> isArray v \<or> list_all blankString (elements v)
          then errs @ [teamMembersError] else errs)"
  by (cases v)
     (auto simp: members_step_def filter_trim_strings filter_empty_conv list_all_iff)

lemma members_step_raises:
  "\<not> list_all isString (elements v) \<Longrightarrow>
   \<exists>x. \<not> isString x \<and> members_step v errs = Inl (no_method (lit ''m'') (lit ''trim'') x)"
proof (cases v)
  case (JArr ms)
  assume "\<not> list_all isString (elements v)"
  with JArr have "\<not> list_all isString ms" by simp
  from filter_trim_raises [OF this, of "lit ''m''"] JArr show ?thesis
    by (auto simp: members_step_def)
qed simp_all

lemma youtube_step_ok:
  "\<not> truthy v \<or> isString v \<Longrightarrow>
   youtube_step v errs =
     Inr (if nonEmptyString v \<and> \<not> str_includes (chars v) (lit ''youtube.com'') \<and>
             \<not> str_includes (chars v) (lit ''youtu.be'')
          then errs @ [youtubeError] else errs)"
  by (cases v) (simp_all add: youtube_step_def)

lemma github_step_ok:
  "\<not> truthy v \<or> isString v \<Longrightarrow>
   github_step v errs =
     Inr (if nonEmptyString v \<and> \<not> str_includes (chars v) (lit ''github.com'')
          then errs @ [githubError] else errs)"
  by (cases v) (simp_all add: github_step_def)

subsection \<open>Validation as a whole\<close>

lemma describe_required:
  "map describe (filter (fails b) (map (\<lambda>(field, displayName). Required field displayName) fs)) =
   map snd (filter (\<lambda>(field, displayName). absentOrBlank (b field)) fs)"
  by (induction fs) auto

lemma wellTyped_field:
  "wellTyped b \<Longrightarrow> (field, displayName) \<in> set requiredFields \<Longrightarrow>
   \<not> truthy (b field) \<or> isString (b field)"
  by (auto simp: wellTyped_def list_all_iff)

lemma validate_wellTyped:
  assumes "wellTyped b"
  shows "validate b = Inr (map describe (filter (fails b) rules))"
proof -
  have req: "list_all (\<lambda>(field, displayName). \<not> truthy (b field) \<or> isString (b field)) requiredFields"
    and mem: "list_all isString (elements (b (lit ''teamMembers'')))"
    using assms by (simp_all add: wellTyped_def)
  have email: "\<not> truthy (b (lit ''teamEmail'')) \<or> isString (b (lit ''teamEmail''))"
    by (rule wellTyped_field [OF assms, of _ "lit ''Team Email Address''"])
       (simp add: requiredFields_def)
  have yt: "\<not> truthy (b (lit ''youtubeLink'')) \<or> isString (b (lit ''youtubeLink''))"
    by (rule wellTyped_field [OF assms, of _ "lit ''YouTube Link''"])
       (simp add: requiredFields_def)
  have gh: "\<not> truthy (b (lit ''githubRepo'')) \<or> isString (b (lit ''githubRepo''))"
    by (rule wellTyped_field [OF assms, of _ "lit ''GitHub Repository''"])
       (simp add: requiredFields_def)
  show ?thesis
    unfolding validate_def rules_def
    by (simp add: required_loop_ok [OF req] email_step_ok [OF email] sdg_step_eq
        members_step_ok [OF mem] youtube_step_ok [OF yt] github_step_ok [OF gh]
        describe_required)
qed

text \<open>The TypeErrors of the model are plain failures.\<close>

lemma not_mentions_without_U:
  "0x55 \<notin> set m \<Longrightarrow> \<not> mentionsUnauthorized (TypeError m)"
proof
  assume no: "0x55 \<notin> set m" and "mentionsUnauthorized (TypeError m)"
  then have "str_includes m (lit ''Unauthorized'')"
    by (simp add: mentionsUnauthorized_def TypeError_def)
  then have "set (lit ''Unauthorized'') \<subseteq> set m" by (rule str_includes_set)
  moreover have "0x55 \<in> set (lit ''Unauthorized'')" by (simp add: lit_def)
  ultimately show False using no by blast
qed

lemma plainFailure_TypeError: "0x55 \<notin> set m \<Longrightarrow> plainFailure (TypeError m)"
  using not_mentions_without_U [of m] by (simp add: plainFailure_def) (simp add: TypeError_def)

lemma plain_trim_loop: "plainFailure (no_method (lit ''req.body[field]'') (lit ''trim'') v)"
  by (cases v) (simp_all add: plainFailure_TypeError lit_def)

lemma plain_trim_m: "plainFailure (no_method (lit ''m'') (lit ''trim'') v)"
  by (cases v) (simp_all add: plainFailure_TypeError lit_def)

lemma validate_not_wellTyped:
  assumes "\<not> wellTyped b"
  shows "\<exists>e. validate b = Inl e \<and> plainFailure e"
proof (cases "list_all (\<lambda>(field, displayName). \<not> truthy (b field) \<or> isString (b field)) requiredFields")
  case False
  from required_loop_raises [OF this, of "[]"] show ?thesis
    by (auto simp: validate_def plain_trim_loop)
next
  case True
  with assms have mem: "\<not> list_all isString (elements (b (lit ''teamMembers'')))"
    by (simp add: wellTyped_def)
  have tb: "(f, d) \<in> set requiredFields \<Longrightarrow> \<not> truthy (b f) \<or> isString (b f)" for f d
    using True by (auto simp: list_all_iff)
  have email: "\<not> truthy (b (lit ''teamEmail'')) \<or> isString (b (lit ''teamEmail''))"
    by (rule tb [of _ "lit ''Team Email Address''"]) (simp add: requiredFields_def)
  from members_step_raises [OF mem] show ?thesis
    unfolding validate_def
    by (simp add: required_loop_ok [OF True] email_step_ok [OF email] sdg_step_eq)
       (metis bindE_Inl plain_trim_m)
qed

lemma validate_Inr_iff: "(\<exists>errs. validate b = Inr errs) \<longleftrightarrow> wellTyped b"
proof
  assume "\<exists>errs. validate b = Inr errs"
  then show "wellTyped b" using validate_not_wellTyped [of b] by (cases "wellTyped b") auto
next
  assume "wellTyped b"
  then show "\<exists>errs. validate b = Inr errs" by (simp add: validate_wellTyped)
qed

subsection \<open>The handler\<close>

lemma toString_falsy_or_string:
  "\<not> truthy v \<or> isString v \<Longrightarrow> \<exists>s. toString v = Inr s"
  by (cases v) simp_all

lemma wellTyped_teamName: "wellTyped b \<Longrightarrow> \<exists>s. toString (b (lit ''teamName'')) = Inr s"
  by (rule toString_falsy_or_string, rule wellTyped_field [of _ _ "lit ''Team Name''"])
     (simp_all add: requiredFields_def)

lemma handler_unconfigured:
  "transporter w = None \<Longrightarrow> handler w b = \<lparr>effects = [], response = notConfigured\<rparr>"
  by (simp add: handler_def)

lemma handler_invalid:
  assumes "transporter w = Some send" and "validate b = Inr errs" and "errs \<noteq> []"
  shows "handler w b = \<lparr>effects = [], response = validationFailed errs\<rparr>"
proof -
  from assms(2) have "wellTyped b" using validate_Inr_iff by blast
  then obtain s where "toString (b (lit ''teamName'')) = Inr s"
    using wellTyped_teamName by blast
  with assms show ?thesis by (simp add: handler_def try_block_def)
qed






lemma sent_handler_cases:
  "sent (effects (handler w b)) = [] \<or>
   (\<exists>send s. transporter w = Some send \<and> validate b = Inr [] \<and> format_submission w b = Inr s \<and>
      sent (effects (handler w b)) = [adminMail b s, participantMail b s])"
  by (auto simp: handler_def try_block_def Let_def
      split: option.splits sum.splits prod.splits if_splits)

subsection \<open>Matching by derivatives decides the language\<close>











subsection \<open>Which rule an entry of the error list belongs to\<close>

lemma distinct_describe: "distinct (map describe rules)"
  by (simp add: rules_def requiredFields_def emailFormatError_def sdgError_def
      teamMembersError_def youtubeError_def githubError_def)

lemma describe_mem_iff:
  assumes "r \<in> set rules"
  shows "describe r \<in> set (map describe (filter P rules)) \<longleftrightarrow> P r"
proof
  assume "describe r \<in> set (map describe (filter P rules))"
  then obtain r' where r': "r' \<in> set rules" "P r'" "describe r' = describe r" by auto
  from distinct_describe have "inj_on describe (set rules)"
    by (simp add: distinct_map)
  with r' assms have "r' = r" by (auto dest: inj_onD)
  with r' show "P r" by simp
next
  assume "P r"
  with assms show "describe r \<in> set (map describe (filter P rules))" by auto
qed

lemma validate_mem_iff:
  assumes "validate b = Inr errs" and "r \<in> set rules"
  shows "describe r \<in> set errs \<longleftrightarrow> fails b r"
proof -
  from assms(1) have "wellTyped b" using validate_Inr_iff by blast
  with assms(1) have "errs = map describe (filter (fails b) rules)"
    by (simp add: validate_wellTyped)
  with describe_mem_iff [OF assms(2)] show ?thesis by simp
qed

lemma validate_emptyBody:
  "validate emptyBody =
     Inr [lit ''Team Name'', lit ''Team Email Address'', lit ''Project Title'',
          lit ''Project Background'', lit ''Problem Statement'', lit ''YouTube Link'',
          lit ''GitHub Repository'', sdgError, teamMembersError]"
  by (simp add: validate_def emptyBody_def requiredFields_def email_step_def sdg_step_def
      members_step_def youtube_step_def github_step_def)

lemma effects_nonempty_valid: "effects (handler w b) \<noteq> [] \<Longrightarrow> validate b = Inr []"
  by (auto simp: handler_def try_block_def Let_def
      split: option.splits sum.splits prod.splits if_splits)

subsection \<open>Formatting\<close>

lemma upt_0_Suc_map: "[0..<Suc n] = 0 # map Suc [0..<n]"
  by (simp add: upt_conv_Cons map_Suc_upt del: upt_Suc)

lemma map_members_strings:
  "map_members i (map JStr ss) =
     Inr (map (\<lambda>k. decimal (i + k + 1) @ lit ''. '' @ map trim ss ! k) [0..<length ss])"
proof (induction ss arbitrary: i)
  case Nil
  then show ?case by simp
next
  case (Cons s ss)
  show ?case
    by (simp add: Cons.IH upt_0_Suc_map comp_def del: upt_Suc)
qed

lemma filter_nonblank_strings:
  "filter (\<lambda>m. \<not> blankString m) (map JStr names) = map JStr (filter (\<lambda>n. trim n \<noteq> []) names)"
  by (induction names) simp_all

lemma formatMembers_strings:
  "formatMembers (JArr (map JStr names)) =
     Inr (join (lit ''\<newline>'') (numbered (map trim (filter (\<lambda>n. trim n \<noteq> []) names))))"
proof -
  have "list_all isString (map JStr names)" by (simp add: list_all_iff)
  then have "filter_trim (lit ''member'') (map JStr names) =
      Inr (map JStr (filter (\<lambda>n. trim n \<noteq> []) names))"
    by (simp add: filter_trim_strings filter_nonblank_strings)
  then show ?thesis
    by (simp add: formatMembers_def map_members_strings numbered_def)
qed

lemma map_sdgs_eq:
  "map_sdgs i gs =
     bindE (sequenceE (map toString gs))
       (\<lambda>labels. Inr (map (\<lambda>k. decimal (i + k + 1) @ lit ''. '' @ labels ! k) [0..<length labels]))"
proof (induction gs arbitrary: i)
  case Nil
  then show ?case by simp
next
  case (Cons g gs)
  show ?case
  proof (cases "toString g")
    case (Inl e)
    then show ?thesis by simp
  next
    case (Inr t)
    show ?thesis
    proof (cases "sequenceE (map toString gs)")
      case (Inl e)
      with Inr Cons.IH show ?thesis by simp
    next
      case inr: (Inr labels)
      with Inr Cons.IH show ?thesis
        by (simp add: upt_0_Suc_map comp_def del: upt_Suc)
    qed
  qed
qed

lemma formatSDGs_eq:
  "formatSDGs (JArr gs) =
     bindE (sequenceE (map toString gs)) (\<lambda>labels. Inr (join (lit ''\<newline>'') (numbered labels)))"
proof (cases "sequenceE (map toString gs)")
  case (Inl e)
  then show ?thesis by (simp add: formatSDGs_def map_sdgs_eq)
next
  case (Inr labels)
  then show ?thesis by (simp add: formatSDGs_def map_sdgs_eq numbered_def)
qed

lemma sequenceE_strings_comp: "sequenceE (map (toString \<circ> JStr) labels) = Inr labels"
  by (induction labels) simp_all

lemma strings_of_isString: "list_all isString ms \<Longrightarrow> \<exists>names. ms = map JStr names"
proof (induction ms)
  case Nil
  then show ?case by simp
next
  case (Cons m ms)
  then obtain names where "ms = map JStr names" by auto
  moreover from Cons.prems obtain s where "m = JStr s" by (cases m) simp_all
  ultimately have "m # ms = map JStr (s # names)" by simp
  then show ?case by (rule exI [of _ "s # names"])
qed

lemma valid_not_fails:
  assumes "validate b = Inr []" and "r \<in> set rules"
  shows "\<not> fails b r"
  using validate_mem_iff [OF assms] by simp

lemma valid_arrays:
  assumes "validate b = Inr []"
  shows "\<exists>names goals.
     b (lit ''teamMembers'') = JArr (map JStr names) \<and> (\<exists>n \<in> set names. trim n \<noteq> []) \<and>
     b (lit ''unsdgGoals'') = JArr goals \<and> goals \<noteq> []"
proof -
  from assms have wt: "wellTyped b" using validate_Inr_iff by blast
  have "\<not> fails b TeamMembers" by (rule valid_not_fails [OF assms]) (simp add: rules_def)
  then obtain ms where ms: "b (lit ''teamMembers'') = JArr ms" "\<not> list_all blankString ms"
    by (cases "b (lit ''teamMembers'')") simp_all
  with wt have "list_all isString ms" by (simp add: wellTyped_def)
  then obtain names where names: "ms = map JStr names" using strings_of_isString by blast
  with ms(2) have "\<exists>n \<in> set names. trim n \<noteq> []" by (auto simp: list_all_iff)
  moreover have "\<not> fails b SdgSelected"
    by (rule valid_not_fails [OF assms]) (simp add: rules_def)
  then obtain goals where "b (lit ''unsdgGoals'') = JArr goals" "goals \<noteq> []"
    by (cases "b (lit ''unsdgGoals'')") simp_all
  ultimately show ?thesis using ms(1) names by blast
qed

lemma valid_required_string:
  assumes "validate b = Inr []" and "(field, displayName) \<in> set requiredFields"
  shows "\<exists>s. b field = JStr s \<and> trim s \<noteq> []"
proof -
  from assms(1) have wt: "wellTyped b" using validate_Inr_iff by blast
  from assms(2) have "Required field displayName \<in> set rules" by (auto simp: rules_def)
  from valid_not_fails [OF assms(1) this] have nb: "\<not> absentOrBlank (b field)" by simp
  from wellTyped_field [OF wt assms(2)] nb show ?thesis
    by (cases "b field") (simp_all add: absentOrBlank_def)
qed

lemma format_submission_valid:
  assumes "validate b = Inr []"
    and "sequenceE (map toString (elements (b (lit ''unsdgGoals'')))) = Inr labels"
  shows "\<exists>s. format_submission w b = Inr s"
proof -
  from valid_arrays [OF assms(1)] obtain names goals where
    tm: "b (lit ''teamMembers'') = JArr (map JStr names)" and
    sg: "b (lit ''unsdgGoals'') = JArr goals" by blast
  have req: "\<exists>s. b field = JStr s"
    if "(field, displayName) \<in> set requiredFields" for field displayName
    using valid_required_string [OF assms(1) that] by blast
  obtain s1 where s1: "b (lit ''teamName'') = JStr s1"
    using req [of _ "lit ''Team Name''"] by (auto simp: requiredFields_def)
  obtain s2 where s2: "b (lit ''teamEmail'') = JStr s2"
    using req [of _ "lit ''Team Email Address''"] by (auto simp: requiredFields_def)
  obtain s3 where s3: "b (lit ''projectTitle'') = JStr s3"
    using req [of _ "lit ''Project Title''"] by (auto simp: requiredFields_def)
  obtain s4 where s4: "b (lit ''projectBackground'') = JStr s4"
    using req [of _ "lit ''Project Background''"] by (auto simp: requiredFields_def)
  obtain s5 where s5: "b (lit ''problemStatement'') = JStr s5"
    using req [of _ "lit ''Problem Statement''"] by (auto simp: requiredFields_def)
  obtain s6 where s6: "b (lit ''youtubeLink'') = JStr s6"
    using req [of _ "lit ''YouTube Link''"] by (auto simp: requiredFields_def)
  obtain s7 where s7: "b (lit ''githubRepo'') = JStr s7"
    using req [of _ "lit ''GitHub Repository''"] by (auto simp: requiredFields_def)
  have ft: "filter_trim (lit ''m'') (map JStr names) =
      Inr (map JStr (filter (\<lambda>n. trim n \<noteq> []) names))"
    by (simp add: filter_trim_strings filter_nonblank_strings list_all_iff)
  from assms(2) sg have sq: "sequenceE (map toString goals) = Inr labels" by simp
  show ?thesis
    unfolding format_submission_def Let_def
    by (simp add: tm sg s1 s2 s3 s4 s5 s6 s7 formatMembers_strings formatSDGs_eq sq ft)
qed

lemma handler_delivery:
  assumes "transporter w = Some send" and "validate b = Inr []"
    and "format_submission w b = Inr s"
  shows "handler w b =
     (case promise_all (adminSettlesFirst w) (send (adminMail b s)) (send (participantMail b s)) of
        Some e \<Rightarrow>
          \<lparr>effects = [DateNow, MathRandom, NewDate, SendMail (adminMail b s),
                      SendMail (participantMail b s)],
           response = catch_block w e\<rparr>
      | None \<Rightarrow>
          \<lparr>effects = [DateNow, MathRandom, NewDate, SendMail (adminMail b s),
                      SendMail (participantMail b s)],
           response = submitted b s\<rparr>)"
proof -
  from assms(2) have "wellTyped b" using validate_Inr_iff by blast
  then obtain t where "toString (b (lit ''teamName'')) = Inr t"
    using wellTyped_teamName by blast
  with assms show ?thesis
    by (simp add: handler_def try_block_def Let_def split: option.splits)
qed

lemma unat_small: "x < 65536 \<Longrightarrow> unat (of_nat x :: jschar) = x"
  by (simp add: unat_of_nat take_bit_nat_eq_self)

lemma decimalValue_decimal: "decimalValue (decimal n) = n"
proof (induction n rule: decimal.induct)
  case (1 n)
  show ?case
  proof (cases "n < 10")
    case True
    then show ?thesis
      using unat_small [of "48 + n"]
      by (subst decimal.simps) (simp add: decimalValue_def)
  next
    case False
    with "1.IH" have "decimalValue (decimal (n div 10)) = n div 10" by simp
    then show ?thesis
      using False unat_small [of "48 + n mod 10"]
      by (subst decimal.simps) (simp add: decimalValue_def)
  qed
qed

lemma replace_g_concat: "replace_g c r s = concat (map (\<lambda>x. if x = c then r else [x]) s)"
  by (induction s) simp_all

subsection \<open>Rendering\<close>

lemma bindE_eq_Inr: "bindE m f = Inr y \<longleftrightarrow> (\<exists>x. m = Inr x \<and> f x = Inr y)"
  by (cases m) simp_all

lemma sequenceE_map_Inr:
  "sequenceE (map f xs) = Inr ys \<longleftrightarrow> list_all2 (\<lambda>x y. f x = Inr y) xs ys"
proof (induction xs arbitrary: ys)
  case Nil
  then show ?case by auto
next
  case (Cons x xs)
  have "sequenceE (map f (x # xs)) = Inr ys \<longleftrightarrow>
      (\<exists>y zs. f x = Inr y \<and> sequenceE (map f xs) = Inr zs \<and> ys = y # zs)"
    by (auto simp: bindE_eq_Inr)
  also have "\<dots> \<longleftrightarrow> (\<exists>y zs. f x = Inr y \<and> list_all2 (\<lambda>x y. f x = Inr y) xs zs \<and> ys = y # zs)"
    by (simp add: Cons.IH)
  also have "\<dots> \<longleftrightarrow> list_all2 (\<lambda>x y. f x = Inr y) (x # xs) ys"
    by (auto simp: list_all2_Cons1)
  finally show ?case .
qed

lemma toString_renders: "toString v = Inr s \<Longrightarrow> renders v s"
proof (induction v arbitrary: s rule: toString.induct)
  case (3 b)
  then show ?case by (cases b) (auto intro: renders.intros)
next
  case (6 vs)
  from "6.prems" obtain parts where
    sq: "sequenceE (map (\<lambda>v. if v = JUndefined \<or> v = JNull then Inr [] else toString v) vs) = Inr parts"
    and s: "s = join (lit '','') parts"
    by (auto simp: bindE_eq_Inr)
  from sq have "list_all2
      (\<lambda>v part. (if v = JUndefined \<or> v = JNull then Inr [] else toString v) = Inr part) vs parts"
    by (simp add: sequenceE_map_Inr)
  then have "list_all2
      (\<lambda>v part. (v = JUndefined \<or> v = JNull) \<and> part = [] \<or>
                v \<noteq> JUndefined \<and> v \<noteq> JNull \<and> renders v part) vs parts"
  proof (rule list.rel_mono_strong)
    fix v part
    assume "v \<in> set vs" and
      "(if v = JUndefined \<or> v = JNull then Inr [] else toString v) = Inr part"
    with "6.IH" show "(v = JUndefined \<or> v = JNull) \<and> part = [] \<or>
        v \<noteq> JUndefined \<and> v \<noteq> JNull \<and> renders v part"
      by (auto split: if_splits)
  qed
  with s show ?case by (auto intro: renders.renders_array)
next
  case (7 ps)
  then show ?case by (auto intro: renders.intros split: if_splits)
qed (auto intro: renders.intros)

lemma renders_toString: "renders v s \<Longrightarrow> toString v = Inr s"
proof (induction rule: renders.induct)
  case (renders_array vs parts)
  then have "list_all2
      (\<lambda>v part. (if v = JUndefined \<or> v = JNull then Inr [] else toString v) = Inr part) vs parts"
    by (rule list.rel_mono_strong) auto
  then have "sequenceE (map (\<lambda>v. if v = JUndefined \<or> v = JNull then Inr [] else toString v) vs) =
      Inr parts"
    by (simp add: sequenceE_map_Inr)
  then show ?case by simp
qed simp_all

lemma toString_iff_renders: "toString v = Inr s \<longleftrightarrow> renders v s"
  using toString_renders renders_toString by blast

lemma sequenceE_toString_iff:
  "sequenceE (map toString goals) = Inr labels \<longleftrightarrow> list_all2 renders goals labels"
  by (simp add: sequenceE_map_Inr toString_iff_renders)

lemma formatSDGs_renders:
  "list_all2 renders goals labels \<Longrightarrow>
   formatSDGs (JArr goals) = Inr (join (lit ''\<newline>'') (numbered labels))"
  by (simp add: formatSDGs_eq sequenceE_toString_iff [symmetric])

lemma formatSDGs_Inr:
  "formatSDGs (JArr goals) = Inr out \<Longrightarrow>
   \<exists>labels. list_all2 renders goals labels \<and> out = join (lit ''\<newline>'') (numbered labels)"
  by (cases "sequenceE (map toString goals)")
     (auto simp: formatSDGs_eq sequenceE_toString_iff [symmetric])


subsection \<open>Payloads on which no rule throws\<close>

lemma wellTyped_nonEmptyString:
  assumes "wellTyped b" and "(field, displayName) \<in> set requiredFields"
  shows "\<not> truthy (b field) \<or> nonEmptyString (b field)"
  using wellTyped_field [OF assms] by (cases "b field") simp_all

lemma falsy_absentOrBlank: "\<not> truthy v \<Longrightarrow> absentOrBlank v"
  by (simp add: absentOrBlank_def)

lemma handler_errors:
  assumes "validate b = Inr errs"
  shows "transporter w = Some send \<and> errs \<noteq> [] \<longrightarrow>
         res_errors (response (handler w b)) = Some errs"
proof
  assume "transporter w = Some send \<and> errs \<noteq> []"
  with assms have "handler w b = \<lparr>effects = [], response = validationFailed errs\<rparr>"
    using handler_invalid by blast
  then show "res_errors (response (handler w b)) = Some errs"
    by (simp add: validationFailed_def failure_def)
qed

lemma required_mem_iff:
  assumes "validate b = Inr errs" and "(field, displayName) \<in> set requiredFields"
  shows "displayName \<in> set errs \<longleftrightarrow> absentOrBlank (b field)"
proof -
  from assms(2) have "Required field displayName \<in> set rules" by (auto simp: rules_def)
  from validate_mem_iff [OF assms(1) this] show ?thesis by simp
qed

section \<open>The claims\<close>

text \<open>
  C1, as amended. For every payload on which no rule throws (every required field is
  falsy or a string, and an array of team members holds only strings; validation
  returns a list on exactly these payloads), validation evaluates all twelve rules and
  returns the entries of all failing ones, in the fixed order of the rules; when that list is not empty and the transport is configured, the
  handler answers 400 with exactly that list and has no effect. For an empty request
  body the list is the seven display names, then the SDG entry, then the team-member
  entry: nine entries.
\<close>

theorem validation_accumulates_every_failure:
  "(wellTyped b \<longrightarrow> validate b = Inr (map describe (filter (fails b) rules))) \<and>
   (validate b = Inr errs' \<longrightarrow> wellTyped b) \<and>
   (wellTyped b \<and> transporter w = Some send \<and> filter (fails b) rules \<noteq> [] \<longrightarrow>
      handler w b =
        \<lparr>effects = [], response = validationFailed (map describe (filter (fails b) rules))\<rparr>) \<and>
   (transporter w = Some send \<longrightarrow>
      handler w emptyBody =
        \<lparr>effects = [],
         response = validationFailed
           [lit ''Team Name'', lit ''Team Email Address'', lit ''Project Title'',
            lit ''Project Background'', lit ''Problem Statement'', lit ''YouTube Link'',
            lit ''GitHub Repository'', sdgError, teamMembersError]\<rparr>) \<and>
   res_status (validationFailed errs) = 400 \<and>
   \<not> res_success (validationFailed errs) \<and>
   res_errors (validationFailed errs) = Some errs"
proof (intro conjI impI)
  assume "wellTyped b"
  then show "validate b = Inr (map describe (filter (fails b) rules))"
    by (rule validate_wellTyped)
next
  assume "validate b = Inr errs'"
  then show "wellTyped b" using validate_Inr_iff by blast
next
  assume a: "wellTyped b \<and> transporter w = Some send \<and> filter (fails b) rules \<noteq> []"
  then have "validate b = Inr (map describe (filter (fails b) rules))"
    by (simp add: validate_wellTyped)
  moreover from a have "map describe (filter (fails b) rules) \<noteq> []" by simp
  ultimately show "handler w b =
      \<lparr>effects = [], response = validationFailed (map describe (filter (fails b) rules))\<rparr>"
    using a handler_invalid by blast
next
  assume "transporter w = Some send"
  then show "handler w emptyBody =
      \<lparr>effects = [],
       response = validationFailed
         [lit ''Team Name'', lit ''Team Email Address'', lit ''Project Title'',
          lit ''Project Background'', lit ''Problem Statement'', lit ''YouTube Link'',
          lit ''GitHub Repository'', sdgError, teamMembersError]\<rparr>"
    by (rule handler_invalid) (simp_all add: validate_emptyBody)
qed (simp_all add: validationFailed_def failure_def)

theorem validation_accumulates_every_failure_witness:
  "wellTyped (emptyBody(lit ''teamEmail'' := JStr (lit ''nope''))) \<and>
   transporter sampleWorld = Some acceptAll \<and>
   filter (fails (emptyBody(lit ''teamEmail'' := JStr (lit ''nope'')))) rules \<noteq> [] \<and>
   handler sampleWorld (emptyBody(lit ''teamEmail'' := JStr (lit ''nope''))) =
     \<lparr>effects = [],
      response = validationFailed
        [lit ''Team Name'', lit ''Project Title'', lit ''Project Background'',
         lit ''Problem Statement'', lit ''YouTube Link'', lit ''GitHub Repository'',
         emailFormatError, sdgError, teamMembersError]\<rparr>"
proof -
  let ?b = "emptyBody(lit ''teamEmail'' := JStr (lit ''nope''))"
  have wt: "wellTyped ?b" by code_simp
  have tr: "transporter sampleWorld = Some acceptAll" by (simp add: sampleWorld_def)
  have fl: "map describe (filter (fails ?b) rules) =
      [lit ''Team Name'', lit ''Project Title'', lit ''Project Background'',
       lit ''Problem Statement'', lit ''YouTube Link'', lit ''GitHub Repository'',
       emailFormatError, sdgError, teamMembersError]" by code_simp
  then have ne: "filter (fails ?b) rules \<noteq> []" by auto
  from validation_accumulates_every_failure
    [where b = ?b and w = sampleWorld and send = acceptAll] wt tr ne
  have "handler sampleWorld ?b =
      \<lparr>effects = [], response = validationFailed (map describe (filter (fails ?b) rules))\<rparr>"
    by blast
  with wt tr ne fl show ?thesis by simp
qed

text \<open>
  C1 as stated fails: a payload whose \<open>teamName\<close> is the number 5 and that lacks every
  other field breaks eleven rules, yet the first rule throws, no later rule is
  evaluated, and the handler answers 500 without any error list.
\<close>

theorem validation_stops_at_number_counterexample:
  "validate (emptyBody(lit ''teamName'' := JNum True (lit ''5''))) =
     Inl (TypeError (lit ''req.body[field].trim is not a function'')) \<and>
   fails (emptyBody(lit ''teamName'' := JNum True (lit ''5''))) SdgSelected \<and>
   handler sampleWorld (emptyBody(lit ''teamName'' := JNum True (lit ''5''))) =
     \<lparr>effects = [],
      response = (failure 500 genericMessage)
        \<lparr>res_error := Some (lit ''req.body[field].trim is not a function'')\<rparr>\<rparr> \<and>
   res_errors (response (handler sampleWorld (emptyBody(lit ''teamName'' := JNum True (lit ''5''))))) = None"
  by code_simp

text \<open>
  C2. If the email transport was never configured at process start, every POST to
  /submit-mvp is answered with status 500 and \<open>success: false\<close>, whatever the request
  body holds, before any validation: the response is the fixed one and the handler has
  had no effect.
\<close>

theorem unconfigured_transport_answers_500:
  "transporter w = None \<Longrightarrow>
   handler w b = \<lparr>effects = [], response = notConfigured\<rparr> \<and>
   res_status (response (handler w b)) = 500 \<and>
   \<not> res_success (response (handler w b)) \<and>
   res_errors (response (handler w b)) = None"
  by (simp add: handler_unconfigured notConfigured_def failure_def)

theorem unconfigured_transport_answers_500_witness:
  "transporter unconfiguredWorld = None \<and>
   handler unconfiguredWorld sampleBody = \<lparr>effects = [], response = notConfigured\<rparr> \<and>
   res_status (response (handler unconfiguredWorld sampleBody)) = 500 \<and>
   \<not> res_success (response (handler unconfiguredWorld sampleBody)) \<and>
   res_errors (response (handler unconfiguredWorld sampleBody)) = None"
proof -
  have h: "transporter unconfiguredWorld = None"
    by (simp add: unconfiguredWorld_def sampleWorld_def)
  show ?thesis
    using h unconfigured_transport_answers_500 [OF h, of sampleBody] by blast
qed




text \<open>
  C10. When validation fails (the accumulated error list is not empty), the handler
  answers 400 having had no effect: no clock or random number was read for a submission
  id and nothing was handed to the transport. Whenever a run has an effect at all, in
  particular whenever it hands a message to the transport, validation returned the
  empty list.
\<close>

theorem invalid_payload_has_no_effect:
  "(transporter w = Some send \<and> validate b = Inr errs \<and> errs \<noteq> [] \<longrightarrow>
      handler w b = \<lparr>effects = [], response = validationFailed errs\<rparr> \<and>
      res_status (response (handler w b)) = 400) \<and>
   (effects (handler w b) \<noteq> [] \<longrightarrow> validate b = Inr []) \<and>
   (sent (effects (handler w b)) \<noteq> [] \<longrightarrow> validate b = Inr [])"
proof (intro conjI impI)
  assume a: "transporter w = Some send \<and> validate b = Inr errs \<and> errs \<noteq> []"
  then show h: "handler w b = \<lparr>effects = [], response = validationFailed errs\<rparr>"
    using handler_invalid by blast
  then show "res_status (response (handler w b)) = 400"
    by (simp add: validationFailed_def failure_def)
next
  assume "effects (handler w b) \<noteq> []"
  then show "validate b = Inr []" by (rule effects_nonempty_valid)
next
  assume "sent (effects (handler w b)) \<noteq> []"
  then have "effects (handler w b) \<noteq> []" by auto
  then show "validate b = Inr []" by (rule effects_nonempty_valid)
qed

theorem invalid_payload_has_no_effect_witness:
  "transporter sampleWorld = Some acceptAll \<and>
   validate (sampleBody(lit ''teamEmail'' := JStr (lit ''not-an-email''))) = Inr [emailFormatError] \<and>
   [emailFormatError] \<noteq> [] \<and>
   handler sampleWorld (sampleBody(lit ''teamEmail'' := JStr (lit ''not-an-email''))) =
     \<lparr>effects = [], response = validationFailed [emailFormatError]\<rparr>"
proof -
  let ?b = "sampleBody(lit ''teamEmail'' := JStr (lit ''not-an-email''))"
  have tr: "transporter sampleWorld = Some acceptAll" by (simp add: sampleWorld_def)
  have v: "validate ?b = Inr [emailFormatError]" by code_simp
  from invalid_payload_has_no_effect [of sampleWorld acceptAll ?b "[emailFormatError]"] tr v
  show ?thesis by simp
qed

text \<open>
  C3, as amended. For every payload on which no rule throws (every required field is
  falsy or a string, and an array of team members holds only strings), validation
  returns a list, which the 400 response carries when it is not empty, and in it the
  format rules of \<open>youtubeLink\<close> and \<open>githubRepo\<close> are checked exactly when the field is
  a non-empty string, blank or not. A field of such a payload is either falsy or a
  non-empty string. When \<open>youtubeLink\<close> is absent or empty (falsy), the list has the
  missing-field entry and not the format entry; when it is a non-empty string, the list
  has the format entry exactly when the value contains neither \<open>youtube.com\<close> nor
  \<open>youtu.be\<close>. The same holds of \<open>githubRepo\<close> and \<open>github.com\<close>.
\<close>

theorem link_format_checked_when_nonempty:
  "wellTyped b \<Longrightarrow>
   \<exists>errs. validate b = Inr errs \<and>
     (transporter w = Some send \<and> errs \<noteq> [] \<longrightarrow>
        res_errors (response (handler w b)) = Some errs) \<and>
     (\<not> truthy (b (lit ''youtubeLink'')) \<or> nonEmptyString (b (lit ''youtubeLink''))) \<and>
     (\<not> truthy (b (lit ''youtubeLink'')) \<longrightarrow>
        youtubeError \<notin> set errs \<and> lit ''YouTube Link'' \<in> set errs) \<and>
     (nonEmptyString (b (lit ''youtubeLink'')) \<longrightarrow>
        (youtubeError \<in> set errs \<longleftrightarrow>
           \<not> (\<exists>p q. chars (b (lit ''youtubeLink'')) = p @ lit ''youtube.com'' @ q) \<and>
           \<not> (\<exists>p q. chars (b (lit ''youtubeLink'')) = p @ lit ''youtu.be'' @ q))) \<and>
     (\<not> truthy (b (lit ''githubRepo'')) \<or> nonEmptyString (b (lit ''githubRepo''))) \<and>
     (\<not> truthy (b (lit ''githubRepo'')) \<longrightarrow>
        githubError \<notin> set errs \<and> lit ''GitHub Repository'' \<in> set errs) \<and>
     (nonEmptyString (b (lit ''githubRepo'')) \<longrightarrow>
        (githubError \<in> set errs \<longleftrightarrow>
           \<not> (\<exists>p q. chars (b (lit ''githubRepo'')) = p @ lit ''github.com'' @ q)))"
proof -
  assume wt: "wellTyped b"
  define errs where "errs = map describe (filter (fails b) rules)"
  have v: "validate b = Inr errs" using wt by (simp add: errs_def validate_wellTyped)
  have yf: "(lit ''youtubeLink'', lit ''YouTube Link'') \<in> set requiredFields"
    and gf: "(lit ''githubRepo'', lit ''GitHub Repository'') \<in> set requiredFields"
    by (simp_all add: requiredFields_def)
  have yr: "YoutubeUrl \<in> set rules" and gr: "GithubUrl \<in> set rules"
    by (simp_all add: rules_def)
  have y: "youtubeError \<in> set errs \<longleftrightarrow> fails b YoutubeUrl"
    using validate_mem_iff [OF v yr] by simp
  have g: "githubError \<in> set errs \<longleftrightarrow> fails b GithubUrl"
    using validate_mem_iff [OF v gr] by simp
  have ne: "\<not> truthy x \<Longrightarrow> \<not> nonEmptyString x" for x by (cases x) simp_all
  have 1: "transporter w = Some send \<and> errs \<noteq> [] \<longrightarrow>
      res_errors (response (handler w b)) = Some errs"
    by (rule handler_errors [OF v])
  have 2: "\<not> truthy (b (lit ''youtubeLink'')) \<or> nonEmptyString (b (lit ''youtubeLink''))"
    by (rule wellTyped_nonEmptyString [OF wt yf])
  have 3: "\<not> truthy (b (lit ''youtubeLink'')) \<longrightarrow>
      youtubeError \<notin> set errs \<and> lit ''YouTube Link'' \<in> set errs"
    using y ne required_mem_iff [OF v yf] falsy_absentOrBlank by auto
  have 4: "nonEmptyString (b (lit ''youtubeLink'')) \<longrightarrow>
      (youtubeError \<in> set errs \<longleftrightarrow>
         \<not> (\<exists>p q. chars (b (lit ''youtubeLink'')) = p @ lit ''youtube.com'' @ q) \<and>
         \<not> (\<exists>p q. chars (b (lit ''youtubeLink'')) = p @ lit ''youtu.be'' @ q))"
    using y by (simp add: str_includes_iff)
  have 5: "\<not> truthy (b (lit ''githubRepo'')) \<or> nonEmptyString (b (lit ''githubRepo''))"
    by (rule wellTyped_nonEmptyString [OF wt gf])
  have 6: "\<not> truthy (b (lit ''githubRepo'')) \<longrightarrow>
      githubError \<notin> set errs \<and> lit ''GitHub Repository'' \<in> set errs"
    using g ne required_mem_iff [OF v gf] falsy_absentOrBlank by auto
  have 7: "nonEmptyString (b (lit ''githubRepo'')) \<longrightarrow>
      (githubError \<in> set errs \<longleftrightarrow>
         \<not> (\<exists>p q. chars (b (lit ''githubRepo'')) = p @ lit ''github.com'' @ q))"
    using g by (simp add: str_includes_iff)
  from v 1 2 3 4 5 6 7 show ?thesis by blast
qed

theorem link_format_checked_when_nonempty_witness:
  "wellTyped (sampleBody(lit ''youtubeLink'' := JStr [],
     lit ''githubRepo'' := JStr (lit ''https://gitlab.com/x''))) \<and>
   validate (sampleBody(lit ''youtubeLink'' := JStr [],
     lit ''githubRepo'' := JStr (lit ''https://gitlab.com/x''))) =
     Inr [lit ''YouTube Link'', githubError] \<and>
   \<not> str_includes (lit ''https://gitlab.com/x'') (lit ''github.com'') \<and>
   res_errors (response (handler sampleWorld (sampleBody(lit ''youtubeLink'' := JStr [],
     lit ''githubRepo'' := JStr (lit ''https://gitlab.com/x''))))) =
     Some [lit ''YouTube Link'', githubError]"
proof -
  let ?b = "sampleBody(lit ''youtubeLink'' := JStr [],
     lit ''githubRepo'' := JStr (lit ''https://gitlab.com/x''))"
  have wt: "wellTyped ?b" by code_simp
  have tr: "transporter sampleWorld = Some acceptAll" by (simp add: sampleWorld_def)
  have ev: "validate ?b = Inr [lit ''YouTube Link'', githubError]" by code_simp
  have gh: "?b (lit ''githubRepo'') = JStr (lit ''https://gitlab.com/x'')" by simp
  have nz: "lit ''https://gitlab.com/x'' \<noteq> []" by (simp add: lit_def)
  from link_format_checked_when_nonempty [OF wt, of sampleWorld acceptAll] obtain errs where
    v: "validate ?b = Inr errs" and
    r: "transporter sampleWorld = Some acceptAll \<and> errs \<noteq> [] \<longrightarrow>
        res_errors (response (handler sampleWorld ?b)) = Some errs" and
    g: "nonEmptyString (?b (lit ''githubRepo'')) \<longrightarrow>
        (githubError \<in> set errs \<longleftrightarrow>
           \<not> (\<exists>p q. chars (?b (lit ''githubRepo'')) = p @ lit ''github.com'' @ q))"
    by blast
  from v ev have e: "errs = [lit ''YouTube Link'', githubError]" by simp
  from g gh nz e have "\<not> (\<exists>p q. lit ''https://gitlab.com/x'' = p @ lit ''github.com'' @ q)"
    by simp
  then have inc: "\<not> str_includes (lit ''https://gitlab.com/x'') (lit ''github.com'')"
    by (simp add: str_includes_iff)
  from r tr e have "res_errors (response (handler sampleWorld ?b)) =
      Some [lit ''YouTube Link'', githubError]" by simp
  with wt ev inc show ?thesis by blast
qed

text \<open>
  C3 as stated fails twice. A \<open>youtubeLink\<close> of one space is blank after trimming, and
  yet the payload gets the format entry besides the missing-field entry. And with
  \<open>teamName\<close> the number 5 and a \<open>youtubeLink\<close> that is a non-empty string without a
  recognized host, the first rule throws and no format error is produced: the answer is
  500 without an error list.
\<close>

theorem blank_link_gets_format_error_counterexample:
  "trim (lit '' '') = [] \<and>
   validate (emptyBody(lit ''youtubeLink'' := JStr (lit '' ''))) =
     Inr [lit ''Team Name'', lit ''Team Email Address'', lit ''Project Title'',
          lit ''Project Background'', lit ''Problem Statement'', lit ''YouTube Link'',
          lit ''GitHub Repository'', sdgError, teamMembersError, youtubeError] \<and>
   validate (emptyBody(lit ''teamName'' := JNum True (lit ''5''),
       lit ''youtubeLink'' := JStr (lit ''https://vimeo.com/1''))) =
     Inl (TypeError (lit ''req.body[field].trim is not a function'')) \<and>
   res_status (response (handler sampleWorld (emptyBody(lit ''teamName'' := JNum True (lit ''5''),
       lit ''youtubeLink'' := JStr (lit ''https://vimeo.com/1''))))) = 500 \<and>
   res_errors (response (handler sampleWorld (emptyBody(lit ''teamName'' := JNum True (lit ''5''),
       lit ''youtubeLink'' := JStr (lit ''https://vimeo.com/1''))))) = None"
  by code_simp




text \<open>
  C5, as amended. For every payload on which no rule throws (every required field is
  falsy or a string, and an array of team members holds only strings), validation
  returns a list, which the 400 response carries when it is not empty, and the list has
  the team-member entry exactly when \<open>teamMembers\<close> is missing or not an array, or every
  entry is blank after trimming. The check of lines 115 to 117 itself, on every value:
  it adds the entry exactly when the value is not an array or every entry is a string
  that is blank after trimming, and adds nothing exactly when the value is an array of
  strings with a non-blank one. \<open>["", "  "]\<close> is flagged, \<open>["Alice", ""]\<close> is not.
\<close>

theorem team_member_error_iff_all_blank:
  "(wellTyped b \<longrightarrow>
      (\<exists>errs'. validate b = Inr errs' \<and>
         (transporter w = Some send \<and> errs' \<noteq> [] \<longrightarrow>
            res_errors (response (handler w b)) = Some errs') \<and>
         (teamMembersError \<in> set errs' \<longleftrightarrow>
            \<not> isArray (b (lit ''teamMembers'')) \<or>
            list_all blankString (elements (b (lit ''teamMembers'')))))) \<and>
   (members_step v errs = Inr (errs @ [teamMembersError]) \<longleftrightarrow>
      \<not> isArray v \<or> list_all blankString (elements v)) \<and>
   (members_step v errs = Inr errs \<longleftrightarrow>
      isArray v \<and> list_all isString (elements v) \<and> \<not> list_all blankString (elements v)) \<and>
   members_step (JArr [JStr [], JStr (lit ''  '')]) [] = Inr [teamMembersError] \<and>
   members_step (JArr [JStr (lit ''Alice''), JStr []]) [] = Inr []"
proof -
  have blank_str: "list_all blankString ms \<Longrightarrow> list_all isString ms" for ms
  proof (induction ms)
    case (Cons m ms)
    then show ?case by (cases m) simp_all
  qed simp
  have raise: "\<not> list_all isString (elements v) \<Longrightarrow> \<exists>e. members_step v errs = Inl e"
    using members_step_raises by blast
  have arr: "\<not> list_all isString (elements v) \<Longrightarrow> isArray v"
    by (cases v) simp_all
  have 1: "members_step v errs = Inr (errs @ [teamMembersError]) \<longleftrightarrow>
      \<not> isArray v \<or> list_all blankString (elements v)"
  proof (cases "list_all isString (elements v)")
    case True
    then show ?thesis by (simp add: members_step_ok)
  next
    case False
    with raise arr blank_str show ?thesis by auto
  qed
  have 2: "members_step v errs = Inr errs \<longleftrightarrow>
      isArray v \<and> list_all isString (elements v) \<and> \<not> list_all blankString (elements v)"
  proof (cases "list_all isString (elements v)")
    case True
    then show ?thesis by (simp add: members_step_ok)
  next
    case False
    with raise show ?thesis by auto
  qed
  have 3: "wellTyped b \<longrightarrow>
      (\<exists>errs'. validate b = Inr errs' \<and>
         (transporter w = Some send \<and> errs' \<noteq> [] \<longrightarrow>
            res_errors (response (handler w b)) = Some errs') \<and>
         (teamMembersError \<in> set errs' \<longleftrightarrow>
            \<not> isArray (b (lit ''teamMembers'')) \<or>
            list_all blankString (elements (b (lit ''teamMembers'')))))"
  proof
    assume wt: "wellTyped b"
    define errs' where "errs' = map describe (filter (fails b) rules)"
    have v: "validate b = Inr errs'" using wt by (simp add: errs'_def validate_wellTyped)
    have "TeamMembers \<in> set rules" by (simp add: rules_def)
    from validate_mem_iff [OF v this]
    have "teamMembersError \<in> set errs' \<longleftrightarrow>
        \<not> isArray (b (lit ''teamMembers'')) \<or>
        list_all blankString (elements (b (lit ''teamMembers'')))"
      by simp
    with v handler_errors [OF v, of w send]
    show "\<exists>errs'. validate b = Inr errs' \<and>
        (transporter w = Some send \<and> errs' \<noteq> [] \<longrightarrow>
           res_errors (response (handler w b)) = Some errs') \<and>
        (teamMembersError \<in> set errs' \<longleftrightarrow>
           \<not> isArray (b (lit ''teamMembers'')) \<or>
           list_all blankString (elements (b (lit ''teamMembers''))))"
      by blast
  qed
  have 4: "members_step (JArr [JStr [], JStr (lit ''  '')]) [] = Inr [teamMembersError]"
    by code_simp
  have 5: "members_step (JArr [JStr (lit ''Alice''), JStr []]) [] = Inr []"
    by code_simp
  from 1 2 3 4 5 show ?thesis by blast
qed

theorem team_member_error_iff_all_blank_witness:
  "wellTyped (sampleBody(lit ''teamMembers'' := JArr [JStr [], JStr (lit ''  '')])) \<and>
   validate (sampleBody(lit ''teamMembers'' := JArr [JStr [], JStr (lit ''  '')])) =
     Inr [teamMembersError] \<and>
   list_all blankString [JStr [], JStr (lit ''  '')] \<and>
   res_errors (response (handler sampleWorld
     (sampleBody(lit ''teamMembers'' := JArr [JStr [], JStr (lit ''  '')])))) =
     Some [teamMembersError]"
proof -
  let ?b = "sampleBody(lit ''teamMembers'' := JArr [JStr [], JStr (lit ''  '')])"
  have wt: "wellTyped ?b" by code_simp
  have tr: "transporter sampleWorld = Some acceptAll" by (simp add: sampleWorld_def)
  have ev: "validate ?b = Inr [teamMembersError]" by code_simp
  have tm: "?b (lit ''teamMembers'') = JArr [JStr [], JStr (lit ''  '')]" by simp
  from team_member_error_iff_all_blank
    [where b = ?b and w = sampleWorld and send = acceptAll and v = JNull and errs = "[]"] wt
  obtain errs' where
    v: "validate ?b = Inr errs'" and
    r: "transporter sampleWorld = Some acceptAll \<and> errs' \<noteq> [] \<longrightarrow>
        res_errors (response (handler sampleWorld ?b)) = Some errs'" and
    m: "teamMembersError \<in> set errs' \<longleftrightarrow>
        \<not> isArray (?b (lit ''teamMembers'')) \<or>
        list_all blankString (elements (?b (lit ''teamMembers'')))"
    by blast
  from v ev have e: "errs' = [teamMembersError]" by simp
  from m e tm have bl: "list_all blankString [JStr [], JStr (lit ''  '')]" by simp
  from r tr e have "res_errors (response (handler sampleWorld ?b)) = Some [teamMembersError]"
    by simp
  with wt ev bl show ?thesis by blast
qed

text \<open>
  C5 as stated fails: with \<open>teamName\<close> the number 5 and \<open>teamMembers\<close> missing, the first
  rule throws before the team-member check is reached, and no team-member error is
  added: the answer is 500 without an error list.
\<close>

theorem team_member_check_not_reached_counterexample:
  "\<not> isArray ((emptyBody(lit ''teamName'' := JNum True (lit ''5''))) (lit ''teamMembers'')) \<and>
   validate (emptyBody(lit ''teamName'' := JNum True (lit ''5''))) =
     Inl (TypeError (lit ''req.body[field].trim is not a function'')) \<and>
   res_status (response (handler sampleWorld (emptyBody(lit ''teamName'' := JNum True (lit ''5''))))) =
     500 \<and>
   res_message (response (handler sampleWorld (emptyBody(lit ''teamName'' := JNum True (lit ''5''))))) =
     genericMessage \<and>
   res_errors (response (handler sampleWorld (emptyBody(lit ''teamName'' := JNum True (lit ''5''))))) =
     None"
  by code_simp

text \<open>
  C6, as amended. For every valid payload (validation returned the empty list),
  \<open>teamMembers\<close> is an array of strings with a non-blank one and \<open>unsdgGoals\<close> a
  non-empty array. The formatted member list is the numbered list of the trimmed
  non-blank members, in their original order, joined by line breaks. When every goal
  entry renders as a string, always so when the entries are strings, the formatted SDG
  list is the numbered list of the renderings of the raw entries, in their original
  order, none trimmed or dropped; there is a formatted SDG list in no other case. In a
  numbered list of \<open>n\<close> entries there are \<open>n\<close> lines, and line \<open>k\<close> (counting from 0) is
  the decimal number \<open>k + 1\<close>, a dot, a space and entry \<open>k\<close>: the numbering starts at 1
  and has no gap.
\<close>

theorem formatted_lists_are_numbered:
  "(validate b = Inr [] \<longrightarrow>
      (\<exists>names goals.
         b (lit ''teamMembers'') = JArr (map JStr names) \<and>
         (\<exists>n \<in> set names. trim n \<noteq> []) \<and>
         b (lit ''unsdgGoals'') = JArr goals \<and> goals \<noteq> [] \<and>
         formatMembers (b (lit ''teamMembers'')) =
           Inr (join (lit ''\<newline>'')
                  (numbered (map trim (filter (\<lambda>n. trim n \<noteq> []) names)))) \<and>
         (\<forall>labels. list_all2 renders goals labels \<longrightarrow>
            formatSDGs (b (lit ''unsdgGoals'')) =
              Inr (join (lit ''\<newline>'') (numbered labels))) \<and>
         (\<forall>out. formatSDGs (b (lit ''unsdgGoals'')) = Inr out \<longrightarrow>
            (\<exists>labels. list_all2 renders goals labels \<and>
               out = join (lit ''\<newline>'') (numbered labels))) \<and>
         (\<forall>labels. goals = map JStr labels \<longrightarrow>
            formatSDGs (b (lit ''unsdgGoals'')) =
              Inr (join (lit ''\<newline>'') (numbered labels))))) \<and>
   length (numbered xs) = length xs \<and>
   (\<forall>k < length xs. numbered xs ! k = decimal (k + 1) @ lit ''. '' @ xs ! k) \<and>
   decimalValue (decimal (k + 1)) = k + 1"
proof (intro conjI impI)
  assume v: "validate b = Inr []"
  from valid_arrays [OF v] obtain names goals where
    tm: "b (lit ''teamMembers'') = JArr (map JStr names)" and
    nb: "\<exists>n \<in> set names. trim n \<noteq> []" and
    sg: "b (lit ''unsdgGoals'') = JArr goals" and ne: "goals \<noteq> []" by blast
  have m: "formatMembers (b (lit ''teamMembers'')) =
      Inr (join (lit ''\<newline>'') (numbered (map trim (filter (\<lambda>n. trim n \<noteq> []) names))))"
    by (simp add: tm formatMembers_strings)
  have g1: "\<forall>labels. list_all2 renders goals labels \<longrightarrow>
      formatSDGs (b (lit ''unsdgGoals'')) = Inr (join (lit ''\<newline>'') (numbered labels))"
    by (simp add: sg formatSDGs_renders)
  have g2: "\<forall>out. formatSDGs (b (lit ''unsdgGoals'')) = Inr out \<longrightarrow>
      (\<exists>labels. list_all2 renders goals labels \<and>
         out = join (lit ''\<newline>'') (numbered labels))"
    using formatSDGs_Inr by (simp add: sg)
  have "list_all2 renders (map JStr labels) labels" for labels
    by (induction labels) (simp_all add: renders.renders_string)
  with g1 have g3: "\<forall>labels. goals = map JStr labels \<longrightarrow>
      formatSDGs (b (lit ''unsdgGoals'')) = Inr (join (lit ''\<newline>'') (numbered labels))"
    by blast
  from tm nb sg ne m g1 g2 g3
  show "\<exists>names goals.
      b (lit ''teamMembers'') = JArr (map JStr names) \<and>
      (\<exists>n \<in> set names. trim n \<noteq> []) \<and>
      b (lit ''unsdgGoals'') = JArr goals \<and> goals \<noteq> [] \<and>
      formatMembers (b (lit ''teamMembers'')) =
        Inr (join (lit ''\<newline>'')
               (numbered (map trim (filter (\<lambda>n. trim n \<noteq> []) names)))) \<and>
      (\<forall>labels. list_all2 renders goals labels \<longrightarrow>
         formatSDGs (b (lit ''unsdgGoals'')) =
           Inr (join (lit ''\<newline>'') (numbered labels))) \<and>
      (\<forall>out. formatSDGs (b (lit ''unsdgGoals'')) = Inr out \<longrightarrow>
         (\<exists>labels. list_all2 renders goals labels \<and>
            out = join (lit ''\<newline>'') (numbered labels))) \<and>
      (\<forall>labels. goals = map JStr labels \<longrightarrow>
         formatSDGs (b (lit ''unsdgGoals'')) =
           Inr (join (lit ''\<newline>'') (numbered labels)))"
    by blast
next
  show "length (numbered xs) = length xs" by (simp add: numbered_def)
next
  show "\<forall>k < length xs. numbered xs ! k = decimal (k + 1) @ lit ''. '' @ xs ! k"
    by (simp add: numbered_def)
next
  show "decimalValue (decimal (k + 1)) = k + 1" by (rule decimalValue_decimal)
qed

theorem formatted_lists_are_numbered_witness:
  "validate mixedGoalsBody = Inr [] \<and>
   list_all2 renders [JStr (lit ''Zero Hunger''), JNum True (lit ''7''), JNull]
     [lit ''Zero Hunger'', lit ''7'', lit ''null''] \<and>
   formatMembers (mixedGoalsBody (lit ''teamMembers'')) =
     Inr (lit ''1. Alice\<newline>2. Bob'') \<and>
   formatSDGs (mixedGoalsBody (lit ''unsdgGoals'')) =
     Inr (lit ''1. Zero Hunger\<newline>2. 7\<newline>3. null'')"
proof -
  have v: "validate mixedGoalsBody = Inr []" by code_simp
  from formatted_lists_are_numbered [of mixedGoalsBody] v obtain names goals where
    tm: "mixedGoalsBody (lit ''teamMembers'') = JArr (map JStr names)" and
    sg: "mixedGoalsBody (lit ''unsdgGoals'') = JArr goals" and
    m: "formatMembers (mixedGoalsBody (lit ''teamMembers'')) =
      Inr (join (lit ''\<newline>'') (numbered (map trim (filter (\<lambda>n. trim n \<noteq> []) names))))" and
    g: "\<forall>labels. list_all2 renders goals labels \<longrightarrow>
      formatSDGs (mixedGoalsBody (lit ''unsdgGoals'')) =
        Inr (join (lit ''\<newline>'') (numbered labels))"
    by blast
  have "mixedGoalsBody (lit ''teamMembers'') = JArr (map JStr [lit ''Alice'', [], lit '' Bob ''])"
    by (simp add: mixedGoalsBody_def sampleBody_def)
  with tm have "map JStr names = map JStr [lit ''Alice'', [], lit '' Bob '']" by simp
  then have names: "names = [lit ''Alice'', [], lit '' Bob '']"
    by (auto simp: map_eq_Cons_conv)
  have "mixedGoalsBody (lit ''unsdgGoals'') =
      JArr [JStr (lit ''Zero Hunger''), JNum True (lit ''7''), JNull]"
    by (simp add: mixedGoalsBody_def)
  with sg have goals: "goals = [JStr (lit ''Zero Hunger''), JNum True (lit ''7''), JNull]"
    by simp
  have r: "list_all2 renders [JStr (lit ''Zero Hunger''), JNum True (lit ''7''), JNull]
      [lit ''Zero Hunger'', lit ''7'', lit ''null'']"
    by (simp add: renders.renders_string renders.renders_number renders.renders_null)
  have e1: "join (lit ''\<newline>'')
      (numbered (map trim (filter (\<lambda>n. trim n \<noteq> []) [lit ''Alice'', [], lit '' Bob '']))) =
      lit ''1. Alice\<newline>2. Bob''" by code_simp
  have e2: "join (lit ''\<newline>'') (numbered [lit ''Zero Hunger'', lit ''7'', lit ''null'']) =
      lit ''1. Zero Hunger\<newline>2. 7\<newline>3. null''" by code_simp
  from m names e1 have fm: "formatMembers (mixedGoalsBody (lit ''teamMembers'')) =
      Inr (lit ''1. Alice\<newline>2. Bob'')" by simp
  from g goals r have "formatSDGs (mixedGoalsBody (lit ''unsdgGoals'')) =
      Inr (join (lit ''\<newline>'') (numbered [lit ''Zero Hunger'', lit ''7'', lit ''null'']))"
    by blast
  with e2 have "formatSDGs (mixedGoalsBody (lit ''unsdgGoals'')) =
      Inr (lit ''1. Zero Hunger\<newline>2. 7\<newline>3. null'')" by simp
  with v r fm show ?thesis by blast
qed

text \<open>
  C6 as stated fails: a payload that is valid and whose only goal is an object with a
  \<open>toString\<close> property of its own passes validation, and then rendering the goal
  throws; there is no formatted SDG list, and the handler, having read the clock and a
  random number, answers 500 and sends nothing.
\<close>

theorem unrenderable_goal_counterexample:
  "validate (sampleBody(lit ''unsdgGoals'' := JArr [JObj [(lit ''toString'', JNum True (lit ''1''))]])) =
     Inr [] \<and>
   formatSDGs (JArr [JObj [(lit ''toString'', JNum True (lit ''1''))]]) =
     Inl (TypeError (lit ''Cannot convert object to primitive value'')) \<and>
   handler sampleWorld
     (sampleBody(lit ''unsdgGoals'' := JArr [JObj [(lit ''toString'', JNum True (lit ''1''))]])) =
     \<lparr>effects = [DateNow, MathRandom, NewDate],
      response = (failure 500 genericMessage)
        \<lparr>res_error := Some (lit ''Cannot convert object to primitive value'')\<rparr>\<rparr>"
  by code_simp




text \<open>
  C8. Every message that the handler hands to the transport has as its HTML body its
  plain-text body with every line break replaced by \<open><br>\<close> and nothing else changed;
  no line break is left in it. The messages handed over are none, or exactly the two
  built from the submission, and they are the two whenever the handler answers 200.
\<close>

theorem html_body_is_text_with_br:
  "(\<forall>m \<in> set (sent (effects (handler w b))).
      mail_html m = lineBreaksToMarker (mail_text m) \<and> 0x0A \<notin> set (mail_html m)) \<and>
   (sent (effects (handler w b)) = [] \<or>
    (\<exists>s. format_submission w b = Inr s \<and>
       sent (effects (handler w b)) = [adminMail b s, participantMail b s] \<and>
       mail_text (adminMail b s) = sub_adminEmailBody s \<and>
       mail_text (participantMail b s) = sub_participantEmailBody s)) \<and>
   (res_status (response (handler w b)) = 200 \<longrightarrow> length (sent (effects (handler w b))) = 2)"
proof -
  have br: "0x0A \<notin> set (lineBreaksToMarker t)" for t
    by (induction t) (simp_all add: lineBreaksToMarker_def lit_def)
  have mk: "mail_html (adminMail b s) = lineBreaksToMarker (mail_text (adminMail b s))"
    "mail_html (participantMail b s) = lineBreaksToMarker (mail_text (participantMail b s))" for s
    by (simp_all add: adminMail_def participantMail_def replace_g_concat lineBreaksToMarker_def)
  have cases: "sent (effects (handler w b)) = [] \<or>
    (\<exists>s. format_submission w b = Inr s \<and>
       sent (effects (handler w b)) = [adminMail b s, participantMail b s])"
    using sent_handler_cases [of w b] by blast
  have 1: "\<forall>m \<in> set (sent (effects (handler w b))).
      mail_html m = lineBreaksToMarker (mail_text m) \<and> 0x0A \<notin> set (mail_html m)"
    using cases mk br by auto
  have 2: "sent (effects (handler w b)) = [] \<or>
    (\<exists>s. format_submission w b = Inr s \<and>
       sent (effects (handler w b)) = [adminMail b s, participantMail b s] \<and>
       mail_text (adminMail b s) = sub_adminEmailBody s \<and>
       mail_text (participantMail b s) = sub_participantEmailBody s)"
    using cases by (auto simp: adminMail_def participantMail_def)
  have 3: "res_status (response (handler w b)) = 200 \<longrightarrow> length (sent (effects (handler w b))) = 2"
    by (auto simp: handler_def try_block_def Let_def notConfigured_def failure_def
        validationFailed_def catch_block_def
        split: option.splits sum.splits prod.splits if_splits)
  from 1 2 3 show ?thesis by blast
qed

theorem html_body_is_text_with_br_witness:
  "res_status (response (handler sampleWorld sampleBody)) = 200 \<and>
   length (sent (effects (handler sampleWorld sampleBody))) = 2 \<and>
   mail_html (hd (sent (effects (handler sampleWorld sampleBody)))) =
     lineBreaksToMarker (mail_text (hd (sent (effects (handler sampleWorld sampleBody))))) \<and>
   lineBreaksToMarker (lit ''a\<newline>b'') = lit ''a<br>b''"
proof -
  have tr: "transporter sampleWorld = Some acceptAll" by (simp add: sampleWorld_def)
  have v: "validate sampleBody = Inr []" by code_simp
  have "sequenceE (map toString (elements (sampleBody (lit ''unsdgGoals'')))) =
      Inr [lit ''Zero Hunger'', lit '' Climate Action'']"
    by (simp add: sampleBody_def)
  from format_submission_valid [OF v this] obtain s
    where s: "format_submission sampleWorld sampleBody = Inr s" by blast
  from handler_delivery [OF tr v s]
  have st: "res_status (response (handler sampleWorld sampleBody)) = 200"
    by (simp add: promise_all_def acceptAll_def submitted_def)
  from html_body_is_text_with_br [of sampleWorld sampleBody] st
  have len: "length (sent (effects (handler sampleWorld sampleBody))) = 2"
    and all: "\<forall>m \<in> set (sent (effects (handler sampleWorld sampleBody))).
      mail_html m = lineBreaksToMarker (mail_text m)"
    by blast+
  from len have "hd (sent (effects (handler sampleWorld sampleBody))) \<in>
      set (sent (effects (handler sampleWorld sampleBody)))"
    by (cases "sent (effects (handler sampleWorld sampleBody))") simp_all
  with all have hd: "mail_html (hd (sent (effects (handler sampleWorld sampleBody)))) =
      lineBreaksToMarker (mail_text (hd (sent (effects (handler sampleWorld sampleBody)))))"
    by blast
  have ex: "lineBreaksToMarker (lit ''a\<newline>b'') = lit ''a<br>b''" by code_simp
  from st len hd ex show ?thesis by blast
qed

end
